theory Spec2Isabelle
  imports Complex_Main
begin

section \<open>Python values and exceptions\<close>

text \<open>A Python \<^verbatim>\<open>float\<close>: a finite value, an infinity or \<^verbatim>\<open>nan\<close>.\<close>

datatype pyfloat = Finite real | PosInf | NegInf | NaN

text \<open>
  The values that \<^verbatim>\<open>json.loads\<close> produces, and that the worker stores as results.
  \<open>JNull\<close> is Python's \<^verbatim>\<open>None\<close>; a \<^verbatim>\<open>dict\<close> is an association list in insertion order
  (the decoder yields every key once).
\<close>

datatype json =
    JNull
  | JBool bool
  | JInt int
  | JFloat pyfloat
  | JStr string
  | JArr "json list"
  | JObj "(string \<times> json) list"

text \<open>An instance of \<^verbatim>\<open>Exception\<close>: its class name and \<^verbatim>\<open>str(e)\<close>.\<close>

datatype pyexc = PyExc string string

fun exc_str :: "pyexc \<Rightarrow> string" where
  "exc_str (PyExc cls msg) = msg"

definition quoted :: "string \<Rightarrow> string" where
  "quoted s = CHR 0x27 # s @ [CHR 0x27]"

fun type_name :: "json \<Rightarrow> string" where
  "type_name JNull = ''NoneType''"
| "type_name (JBool b) = ''bool''"
| "type_name (JInt i) = ''int''"
| "type_name (JFloat r) = ''float''"
| "type_name (JStr s) = ''str''"
| "type_name (JArr xs) = ''list''"
| "type_name (JObj kvs) = ''dict''"

text \<open>Truth value of a Python object, as \<^verbatim>\<open>if x\<close>, \<^verbatim>\<open>x and y\<close> and \<^verbatim>\<open>x or y\<close> test it.\<close>

fun truthy :: "json \<Rightarrow> bool" where
  "truthy JNull = False"
| "truthy (JBool b) = b"
| "truthy (JInt i) = (i \<noteq> 0)"
| "truthy (JFloat r) = (r \<noteq> Finite 0)"
| "truthy (JStr s) = (s \<noteq> [])"
| "truthy (JArr xs) = (xs \<noteq> [])"
| "truthy (JObj kvs) = (kvs \<noteq> [])"

text \<open>\<^verbatim>\<open>obj.get(key)\<close>: only a \<^verbatim>\<open>dict\<close> has the method; a missing key gives \<^verbatim>\<open>None\<close>.\<close>

fun py_get :: "json \<Rightarrow> string \<Rightarrow> pyexc + json" where
  "py_get (JObj kvs) k = Inr (case map_of kvs k of None \<Rightarrow> JNull | Some v \<Rightarrow> v)"
| "py_get v k =
     Inl (PyExc ''AttributeError''
           (quoted (type_name v) @ '' object has no attribute '' @ quoted ''get''))"

section \<open>The environment\<close>

text \<open>
  The text of a request is a Python \<^verbatim>\<open>str\<close> given by its Unicode code points, which is
  what \<^verbatim>\<open>str.strip()\<close> looks at; \<open>ascii\<close> gives the code points of an ASCII literal.
\<close>

type_synonym ustr = "nat list"

definition ascii :: "string \<Rightarrow> ustr" where
  "ascii s = map of_char s"

text \<open>
  What the program takes from outside the repository: the standard library's JSON decoder
  and MD5 digest (of the text's UTF-8 encoding), the wall clock (its \<open>n\<close>-th reading by a
  worker), and the LLM endpoint behind the dispatcher (its reply to the \<open>n\<close>-th outbound
  call), with the configuration read from the process environment. \<open>float_mul\<close> is the
  product \<^verbatim>\<open>int * float\<close> in double precision, rounded as the machine rounds it; it raises
  \<^verbatim>\<open>OverflowError\<close> for an integer beyond the range of a double. A raised exception is
  \<open>Inl\<close>.
\<close>

datatype call = BatchCall "ustr list" "string list" | SingleCall ustr

record env =
  json_loads :: "string \<Rightarrow> pyexc + json"
  md5_hexdigest :: "ustr \<Rightarrow> string"
  time_time :: "nat \<Rightarrow> real"
  llm_reply :: "nat \<Rightarrow> call \<Rightarrow> pyexc + string"
  float_mul :: "int \<Rightarrow> pyfloat \<Rightarrow> pyexc + pyfloat"
  MAX_QUEUE_SIZE :: int
  BACKPRESSURE_THRESHOLD :: pyfloat
  BATCH_SIZE :: int

section \<open>utils.py: recovering JSON from a response\<close>

text \<open>
  \<^verbatim>\<open>re.search(r"(\{.*\}|\[.*\])", s, flags=re.DOTALL)\<close>. The engine tries the start
  positions from left to right and, at each, the first alternative before the second.
  \<^verbatim>\<open>.*\<close> is greedy and, with \<^verbatim>\<open>DOTALL\<close>, matches every character: it takes the whole rest
  and gives characters back until the closing delimiter follows.
\<close>

fun greedy_dotstar :: "char \<Rightarrow> string \<Rightarrow> string option" where
  "greedy_dotstar cls [] = None"
| "greedy_dotstar cls (c # cs) =
     (case greedy_dotstar cls cs of
        Some m \<Rightarrow> Some (c # m)
      | None \<Rightarrow> if c = cls then Some [c] else None)"

fun match_block :: "char \<Rightarrow> char \<Rightarrow> string \<Rightarrow> string option" where
  "match_block opn cls [] = None"
| "match_block opn cls (c # cs) =
     (if c = opn then map_option (Cons c) (greedy_dotstar cls cs) else None)"

definition match_here :: "string \<Rightarrow> string option" where
  "match_here s =
     (case match_block (CHR ''{'') (CHR ''}'') s of
        Some m \<Rightarrow> Some m
      | None \<Rightarrow> match_block (CHR ''['') (CHR '']'') s)"

fun re_search :: "string \<Rightarrow> string option" where
  "re_search [] = None"
| "re_search (c # cs) =
     (case match_here (c # cs) of
        Some m \<Rightarrow> Some m
      | None \<Rightarrow> re_search cs)"

text \<open>
  \<^verbatim>\<open>extract_json_from_text\<close>. Both \<^verbatim>\<open>try\<close> blocks catch \<^verbatim>\<open>Exception\<close>; the search itself
  runs outside them. The result is a sum so that a raise, were there one, would show.
\<close>

definition extract_json_from_text :: "env \<Rightarrow> string \<Rightarrow> pyexc + json" where
  "extract_json_from_text env s =
     (case json_loads env s of
        Inr v \<Rightarrow> Inr v
      | Inl e \<Rightarrow>
          (case re_search s of
             Some m \<Rightarrow>
               (case json_loads env m of
                  Inr v \<Rightarrow> Inr v
                | Inl e' \<Rightarrow> Inr JNull)
           | None \<Rightarrow> Inr JNull))"

text \<open>
  The scanner the specification describes: the first span that opens with a brace or a
  bracket and ends where every delimiter opened since has been closed.
\<close>

fun spec_scan_balanced :: "string \<Rightarrow> char list \<Rightarrow> string option" where
  "spec_scan_balanced [] stack = None"
| "spec_scan_balanced (c # cs) stack =
     (if c = CHR ''{'' then map_option (Cons c) (spec_scan_balanced cs (CHR ''}'' # stack))
      else if c = CHR ''['' then map_option (Cons c) (spec_scan_balanced cs (CHR '']'' # stack))
      else if c = CHR ''}'' \<or> c = CHR '']'' then
        (case stack of
           [] \<Rightarrow> None
         | e # rest \<Rightarrow>
             if c \<noteq> e then None
             else if rest = [] then Some [c]
             else map_option (Cons c) (spec_scan_balanced cs rest))
      else map_option (Cons c) (spec_scan_balanced cs stack))"

definition spec_balanced_here :: "string \<Rightarrow> string option" where
  "spec_balanced_here s =
     (case s of
        [] \<Rightarrow> None
      | c # cs \<Rightarrow>
          if c = CHR ''{'' \<or> c = CHR ''['' then spec_scan_balanced s [] else None)"

fun spec_first_balanced_span :: "string \<Rightarrow> string option" where
  "spec_first_balanced_span [] = None"
| "spec_first_balanced_span (c # cs) =
     (case spec_balanced_here (c # cs) of
        Some m \<Rightarrow> Some m
      | None \<Rightarrow> spec_first_balanced_span cs)"

text \<open>Where a match can start: an opening delimiter with its closing one somewhere after it.\<close>

definition opens_block :: "string \<Rightarrow> bool" where
  "opens_block s =
     (case s of
        [] \<Rightarrow> False
      | c # cs \<Rightarrow> c = CHR ''{'' \<and> CHR ''}'' \<in> set cs \<or> c = CHR ''['' \<and> CHR '']'' \<in> set cs)"

definition is_pair :: "char \<Rightarrow> char \<Rightarrow> bool" where
  "is_pair opn cls \<longleftrightarrow> opn = CHR ''{'' \<and> cls = CHR ''}'' \<or> opn = CHR ''['' \<and> cls = CHR '']''"

section \<open>The shared state: Store, Queue, Cache\<close>

text \<open>
  A Store record is the dict that \<^verbatim>\<open>analyze\<close> creates and the worker updates in place.
  \<open>result\<close> holds a Python value (\<open>JNull\<close> for \<^verbatim>\<open>None\<close>); \<open>error\<close> is \<open>None\<close> while the
  dict has no \<^verbatim>\<open>"error"\<close> key.
\<close>

record lifecycle =
  status :: string
  queued_at :: real
  finished_at :: "real option"
  result :: json
  error :: "string option"

text \<open>The payload put on the queue: \<^verbatim>\<open>{"id", "text", "submitted_at", "cache_key"}\<close>.\<close>

record payload =
  item_id :: string
  item_text :: ustr
  submitted_at :: real
  cache_key :: string

text \<open>
  \<open>cache\<close> holds the entries of the in-memory cache that have not expired (expiry is the
  cache library removing an entry). \<open>calls\<close> logs every outbound call of the dispatcher
  and \<open>ticks\<close> counts the workers' readings of the clock.
\<close>

record world =
  store :: "string \<rightharpoonup> lifecycle"
  queue :: "payload list"
  cache :: "string \<rightharpoonup> json"
  calls :: "call list"
  ticks :: nat

text \<open>\<^verbatim>\<open>await cache.get(key)\<close>: the entry's value, \<^verbatim>\<open>None\<close> when there is none.\<close>

definition cache_get :: "world \<Rightarrow> string \<Rightarrow> json" where
  "cache_get w k = (case cache w k of None \<Rightarrow> JNull | Some v \<Rightarrow> v)"

section \<open>main.py: admission\<close>

record analyze_request =
  req_title :: "ustr option"
  req_abstract :: "ustr option"
  req_text :: "ustr option"
  req_url :: "ustr option"

text \<open>
  \<^verbatim>\<open>if req.title: parts.append(f"Title: {req.title}")\<close> and its siblings: a field adds a
  part when it is set and not empty.
\<close>

definition part :: "ustr \<Rightarrow> ustr option \<Rightarrow> ustr list" where
  "part label f =
     (case f of
        None \<Rightarrow> []
      | Some s \<Rightarrow> if s = [] then [] else [label @ s])"

definition parts :: "analyze_request \<Rightarrow> ustr list" where
  "parts req =
     part (ascii ''Title: '') (req_title req) @ part (ascii ''Abstract: '') (req_abstract req) @
     part [] (req_text req) @ part (ascii ''URL: '') (req_url req)"

fun join :: "ustr \<Rightarrow> ustr list \<Rightarrow> ustr" where
  "join sep [] = []"
| "join sep [x] = x"
| "join sep (x # y # ys) = x @ sep @ join sep (y # ys)"

text \<open>
  \<^verbatim>\<open>str.strip()\<close> removes the characters for which \<^verbatim>\<open>str.isspace()\<close> holds: the ASCII
  ones (tab to carriage return, the separators \<open>0x1C\<close> to \<open>0x1F\<close>, the space) and the
  Unicode ones (\<open>U+0085\<close>, \<open>U+00A0\<close>, \<open>U+1680\<close>, \<open>U+2000\<close> to \<open>U+200A\<close>, \<open>U+2028\<close>,
  \<open>U+2029\<close>, \<open>U+202F\<close>, \<open>U+205F\<close>, \<open>U+3000\<close>).
\<close>

definition is_space :: "nat \<Rightarrow> bool" where
  "is_space c \<longleftrightarrow>
     c \<in> {0x09, 0x0A, 0x0B, 0x0C, 0x0D, 0x1C, 0x1D, 0x1E, 0x1F, 0x20,
          0x85, 0xA0, 0x1680, 0x2028, 0x2029, 0x202F, 0x205F, 0x3000}
     \<or> (0x2000 \<le> c \<and> c \<le> 0x200A)"

definition strip :: "ustr \<Rightarrow> ustr" where
  "strip s = rev (dropWhile is_space (rev (dropWhile is_space s)))"

definition text_blob :: "analyze_request \<Rightarrow> ustr" where
  "text_blob req = strip (join [0x0A, 0x0A] (parts req))"

text \<open>
  \<^verbatim>\<open>int(x)\<close> on a float truncates towards zero, and raises on an infinity and on
  \<^verbatim>\<open>nan\<close>.
\<close>

fun py_int :: "pyfloat \<Rightarrow> pyexc + int" where
  "py_int (Finite x) = Inr (if 0 \<le> x then \<lfloor>x\<rfloor> else \<lceil>x\<rceil>)"
| "py_int NaN = Inl (PyExc ''ValueError'' ''cannot convert float NaN to integer'')"
| "py_int x = Inl (PyExc ''OverflowError'' ''cannot convert float infinity to integer'')"

text \<open>\<^verbatim>\<open>int(MAX_QUEUE_SIZE * BACKPRESSURE_THRESHOLD)\<close>.\<close>

definition threshold :: "env \<Rightarrow> pyexc + int" where
  "threshold env =
     (case float_mul env (MAX_QUEUE_SIZE env) (BACKPRESSURE_THRESHOLD env) of
        Inl e \<Rightarrow> Inl e
      | Inr x \<Rightarrow> py_int x)"

text \<open>\<^verbatim>\<open>asyncio.Queue.full()\<close>: a queue built with \<^verbatim>\<open>maxsize <= 0\<close> is unbounded.\<close>

definition queue_full :: "env \<Rightarrow> world \<Rightarrow> bool" where
  "queue_full env w \<longleftrightarrow> 0 < MAX_QUEUE_SIZE env \<and> MAX_QUEUE_SIZE env \<le> int (length (queue w))"

text \<open>
  The detail of the 429, with the three characters that stand in the source between the
  two halves (\<open>U+00E2\<close>, \<open>U+20AC\<close>, \<open>U+201D\<close>).
\<close>

definition overloaded_detail :: ustr where
  "overloaded_detail =
     ascii ''Server overloaded '' @ [0xE2, 0x20AC, 0x201D] @ ascii '' try again later''"

text \<open>
  What a call of the handler comes to: an \<^verbatim>\<open>HTTPException\<close> with its status code and
  detail, the returned dict, another exception leaving the handler (a 500), or the handler
  waiting in \<^verbatim>\<open>q.put\<close> on a full queue.
\<close>

datatype outcome = Raised nat ustr | Returned json | Unhandled pyexc | Suspended

text \<open>
  \<^verbatim>\<open>analyze\<close>: \<open>rid\<close> and \<open>now\<close> are what \<^verbatim>\<open>make_request_id()\<close> and \<^verbatim>\<open>time.time()\<close>
  return to this call (each path that reads them reads them once). The metrics are left out.
\<close>

definition analyze :: "env \<Rightarrow> analyze_request \<Rightarrow> string \<Rightarrow> real \<Rightarrow> world \<Rightarrow> outcome \<times> world" where
  "analyze env req rid now w =
     (let blob = text_blob req in
      if blob = [] then (Raised 400 (ascii ''No text provided in request''), w)
      else
        let key = ''analyze:'' @ md5_hexdigest env blob;
            cached = cache_get w key
        in
          if cached \<noteq> JNull then
            (Returned (JObj [(''request_id'', JStr rid), (''status'', JStr ''done''),
                             (''cached'', JBool True)]),
             w\<lparr>store := (store w)(rid \<mapsto>
                  \<lparr>status = ''done'', queued_at = now, finished_at = Some now,
                   result = cached, error = None\<rparr>)\<rparr>)
          else
            (case threshold env of
               Inl e \<Rightarrow> (Unhandled e, w)
             | Inr limit \<Rightarrow>
                 if limit \<le> int (length (queue w)) then (Raised 429 overloaded_detail, w)
                 else
                   let w1 = w\<lparr>store := (store w)(rid \<mapsto>
                              \<lparr>status = ''queued'', queued_at = now, finished_at = None,
                               result = JNull, error = None\<rparr>)\<rparr>;
                       item = \<lparr>item_id = rid, item_text = blob, submitted_at = now,
                               cache_key = key\<rparr>
                   in
                     if queue_full env w1 then (Suspended, w1)
                     else (Returned (JObj [(''request_id'', JStr rid),
                                           (''status'', JStr ''queued'')]),
                           w1\<lparr>queue := queue w1 @ [item]\<rparr>)))"

text \<open>\<^verbatim>\<open>get_result\<close>: the record itself, or 404.\<close>

definition get_result :: "string \<Rightarrow> world \<Rightarrow> (nat \<times> string) + lifecycle" where
  "get_result request_id w =
     (case store w request_id of
        None \<Rightarrow> Inl (404, ''Unknown request_id'')
      | Some rec \<Rightarrow> Inr rec)"

section \<open>worker.py: one batch\<close>

text \<open>
  \<^verbatim>\<open>store[k][...] = ...\<close> reads \<^verbatim>\<open>store[k]\<close> first: a missing key raises \<^verbatim>\<open>KeyError\<close>, and
  nothing is inserted.
\<close>

definition update_record :: "string \<Rightarrow> (lifecycle \<Rightarrow> lifecycle) \<Rightarrow> world \<Rightarrow> pyexc + world" where
  "update_record k f w =
     (case store w k of
        None \<Rightarrow> Inl (PyExc ''KeyError'' (quoted k))
      | Some rec \<Rightarrow> Inr (w\<lparr>store := (store w)(k \<mapsto> f rec)\<rparr>))"

text \<open>The three assignments of a finished item; the clock is read by the third.\<close>

definition set_done :: "env \<Rightarrow> string \<Rightarrow> json \<Rightarrow> world \<Rightarrow> pyexc + world" where
  "set_done env k v w =
     (case update_record k
             (\<lambda>rec. rec\<lparr>status := ''done'', result := v,
                        finished_at := Some (time_time env (ticks w))\<rparr>) w of
        Inl e \<Rightarrow> Inl e
      | Inr w' \<Rightarrow> Inr (w'\<lparr>ticks := Suc (ticks w)\<rparr>))"

text \<open>The two assignments of a failed item.\<close>

definition set_error :: "string \<Rightarrow> string \<Rightarrow> world \<Rightarrow> pyexc + world" where
  "set_error k msg w = update_record k (\<lambda>rec. rec\<lparr>status := ''error'', error := Some msg\<rparr>) w"

text \<open>
  \<^verbatim>\<open>rid in store\<close> for a value that passed \<^verbatim>\<open>if rid\<close>: the key when it is one. The keys are
  strings, so a number or a boolean is no key; a list or a dict cannot be hashed.
\<close>

fun store_key :: "json \<Rightarrow> world \<Rightarrow> pyexc + string option" where
  "store_key (JStr s) w = Inr (if s \<in> dom (store w) then Some s else None)"
| "store_key (JArr xs) w = Inl (PyExc ''TypeError'' (''unhashable type: '' @ quoted ''list''))"
| "store_key (JObj kvs) w = Inl (PyExc ''TypeError'' (''unhashable type: '' @ quoted ''dict''))"
| "store_key v w = Inr None"

text \<open>
  The loop over the parsed array (\<^verbatim>\<open>for obj in parsed\<close>). An exception leaves the loop with
  the writes made so far.
\<close>

fun store_results :: "env \<Rightarrow> json list \<Rightarrow> world \<Rightarrow> pyexc option \<times> world" where
  "store_results env [] w = (None, w)"
| "store_results env (obj # objs) w =
     (case py_get obj ''id'' of
        Inl e \<Rightarrow> (Some e, w)
      | Inr rid \<Rightarrow>
          if \<not> truthy rid then store_results env objs w
          else
            (case store_key rid w of
               Inl e \<Rightarrow> (Some e, w)
             | Inr None \<Rightarrow> store_results env objs w
             | Inr (Some k) \<Rightarrow>
                 (case set_done env k obj w of
                    Inl e \<Rightarrow> (Some e, w)
                  | Inr w' \<Rightarrow> store_results env objs w')))"

text \<open>The dispatcher: the call is logged, the endpoint replies or the call raises.\<close>

definition dispatch :: "env \<Rightarrow> call \<Rightarrow> world \<Rightarrow> (pyexc + string) \<times> world" where
  "dispatch env c w = (llm_reply env (length (calls w)) c, w\<lparr>calls := calls w @ [c]\<rparr>)"

definition call_groq_single :: "env \<Rightarrow> ustr \<Rightarrow> world \<Rightarrow> (pyexc + string) \<times> world" where
  "call_groq_single env prompt w = dispatch env (SingleCall prompt) w"

definition call_groq_batch ::
    "env \<Rightarrow> ustr list \<Rightarrow> string list \<Rightarrow> world \<Rightarrow> (pyexc + string) \<times> world" where
  "call_groq_batch env prompts ids w = dispatch env (BatchCall prompts ids) w"

text \<open>The body of the inner \<^verbatim>\<open>try\<close>, for one item of the batch.\<close>

definition try_single :: "env \<Rightarrow> payload \<Rightarrow> world \<Rightarrow> pyexc option \<times> world" where
  "try_single env b w =
     (case call_groq_single env (item_text b) w of
        (Inl e, w1) \<Rightarrow> (Some e, w1)
      | (Inr out, w1) \<Rightarrow>
          (case extract_json_from_text env out of
             Inl e \<Rightarrow> (Some e, w1)
           | Inr parsed_single \<Rightarrow>
               (case set_done env (item_id b)
                       (if truthy parsed_single then parsed_single
                        else JObj [(''raw'', JStr out)]) w1 of
                  Inl e \<Rightarrow> (Some e, w1)
                | Inr w2 \<Rightarrow> (None, w2))))"

text \<open>The inner \<^verbatim>\<open>try\<close> with its handler; what the handler raises leaves the loop.\<close>

definition resolve_single :: "env \<Rightarrow> payload \<Rightarrow> world \<Rightarrow> pyexc option \<times> world" where
  "resolve_single env b w =
     (case try_single env b w of
        (None, w1) \<Rightarrow> (None, w1)
      | (Some e, w1) \<Rightarrow>
          (case set_error (item_id b) (exc_str e) w1 of
             Inl e' \<Rightarrow> (Some e', w1)
           | Inr w2 \<Rightarrow> (None, w2)))"

text \<open>The fallback loop (\<^verbatim>\<open>for i, b in enumerate(batch)\<close>).\<close>

fun fallback :: "env \<Rightarrow> payload list \<Rightarrow> world \<Rightarrow> pyexc option \<times> world" where
  "fallback env [] w = (None, w)"
| "fallback env (b # bs) w =
     (case resolve_single env b w of
        (None, w1) \<Rightarrow> fallback env bs w1
      | (Some e, w1) \<Rightarrow> (Some e, w1))"

text \<open>The outer handler: every item of the batch is marked, up to a missing key.\<close>

fun mark_batch_error :: "string \<Rightarrow> payload list \<Rightarrow> world \<Rightarrow> pyexc option \<times> world" where
  "mark_batch_error msg [] w = (None, w)"
| "mark_batch_error msg (b # bs) w =
     (case set_error (item_id b) msg w of
        Inl e \<Rightarrow> (Some e, w)
      | Inr w1 \<Rightarrow> mark_batch_error msg bs w1)"

text \<open>The body of the outer \<^verbatim>\<open>try\<close>.\<close>

definition try_batch :: "env \<Rightarrow> payload list \<Rightarrow> world \<Rightarrow> pyexc option \<times> world" where
  "try_batch env batch w =
     (case call_groq_batch env (map item_text batch) (map item_id batch) w of
        (Inl e, w1) \<Rightarrow> (Some e, w1)
      | (Inr content, w1) \<Rightarrow>
          (case extract_json_from_text env content of
             Inl e \<Rightarrow> (Some e, w1)
           | Inr parsed \<Rightarrow>
               (case parsed of
                  JArr objs \<Rightarrow>
                    if length objs = length batch then store_results env objs w1
                    else fallback env batch w1
                | _ \<Rightarrow> fallback env batch w1)))"

text \<open>
  One batch, from the batch call to the outer handler. A result \<open>Some e\<close> is an exception
  that leaves \<^verbatim>\<open>worker_loop\<close>. The \<^verbatim>\<open>task_done\<close> bookkeeping is left out.
\<close>

definition process_batch :: "env \<Rightarrow> payload list \<Rightarrow> world \<Rightarrow> pyexc option \<times> world" where
  "process_batch env batch w =
     (case try_batch env batch w of
        (None, w1) \<Rightarrow> (None, w1)
      | (Some e, w1) \<Rightarrow> mark_batch_error (exc_str e) batch w1)"

text \<open>
  Coalescing: the first item, then the items that the timed waits obtain before the window
  closes (\<open>arrived\<close> of them at most), while the batch is shorter than \<^verbatim>\<open>BATCH_SIZE\<close>.
  On an empty queue the worker waits.
\<close>

definition dequeue_batch :: "env \<Rightarrow> nat \<Rightarrow> world \<Rightarrow> (payload list \<times> world) option" where
  "dequeue_batch env arrived w =
     (case queue w of
        [] \<Rightarrow> None
      | item # rest \<Rightarrow>
          let more = take (min arrived (nat (BATCH_SIZE env) - 1)) rest
          in Some (item # more, w\<lparr>queue := drop (length more) rest\<rparr>))"

definition worker_loop :: "env \<Rightarrow> nat \<Rightarrow> world \<Rightarrow> (pyexc option \<times> world) option" where
  "worker_loop env arrived w =
     (case dequeue_batch env arrived w of
        None \<Rightarrow> None
      | Some (batch, w1) \<Rightarrow> Some (process_batch env batch w1))"

text \<open>A sequence of batches, each processed in the state the one before left.\<close>

fun run_batches :: "env \<Rightarrow> payload list list \<Rightarrow> world \<Rightarrow> world" where
  "run_batches env [] w = w"
| "run_batches env (batch # rest) w = run_batches env rest (snd (process_batch env batch w))"

definition terminal :: "lifecycle \<Rightarrow> bool" where
  "terminal rec \<longleftrightarrow> status rec = ''done'' \<or> status rec = ''error''"

section \<open>Example runs\<close>

text \<open>
  The environment of the examples. Each library function is given on the strings the
  examples pass to it, with the value the library returns there; the decoder rejects every
  other string.
\<close>

definition resp_r1 :: string where
  \<open>resp_r1 = ''[{"id": "r1", "summary": "s"}]''\<close>

definition resp_swapped :: string where
  \<open>resp_swapped = ''[{"id": "b", "summary": "B"}, {"id": "a", "summary": "A"}]''\<close>

definition resp_other_id :: string where
  \<open>resp_other_id = ''[{"id": "a", "summary": "A"}, {"id": "zzz", "summary": "Z"}]''\<close>

definition resp_same_id :: string where
  \<open>resp_same_id = ''[{"id": "a", "summary": "first"}, {"id": "a", "summary": "second"}]''\<close>

definition resp_list_id :: string where
  \<open>resp_list_id = ''[{"id": ["x"]}]''\<close>

definition resp_a_again :: string where
  \<open>resp_a_again = ''[{"id": "a", "summary": "again"}]''\<close>

definition resp_dict_id :: string where
  \<open>resp_dict_id = ''[{"id": "a", "summary": "A"}, {"id": {"k": 1}}]''\<close>

definition resp_number :: string where
  \<open>resp_number = ''[{"id": "a", "summary": "A"}, 5]''\<close>

definition resp_summary :: string where
  \<open>resp_summary = ''{"summary": "ok"}''\<close>

definition resp_two_objects :: string where
  \<open>resp_two_objects = ''Result: {"a": 1} and {"b": 2}''\<close>

definition span_first_object :: string where
  \<open>span_first_object = ''{"a": 1}''\<close>

definition span_both_objects :: string where
  \<open>span_both_objects = ''{"a": 1} and {"b": 2}''\<close>

definition elem :: "string \<Rightarrow> string \<Rightarrow> json" where
  "elem i s = JObj [(''id'', JStr i), (''summary'', JStr s)]"

definition decoded :: "(string \<times> json) list" where
  "decoded =
     [(resp_r1, JArr [elem ''r1'' ''s'']),
      (resp_swapped, JArr [elem ''b'' ''B'', elem ''a'' ''A'']),
      (resp_other_id, JArr [elem ''a'' ''A'', elem ''zzz'' ''Z'']),
      (resp_same_id, JArr [elem ''a'' ''first'', elem ''a'' ''second'']),
      (resp_list_id, JArr [JObj [(''id'', JArr [JStr ''x''])]]),
      (resp_a_again, JArr [elem ''a'' ''again'']),
      (resp_dict_id, JArr [elem ''a'' ''A'', JObj [(''id'', JObj [(''k'', JInt 1)])]]),
      (resp_number, JArr [elem ''a'' ''A'', JInt 5]),
      (resp_summary, JObj [(''summary'', JStr ''ok'')]),
      (span_first_object, JObj [(''a'', JInt 1)]),
      (''{}'', JObj [])]"

definition example_loads :: "string \<Rightarrow> pyexc + json" where
  "example_loads s =
     (case map_of decoded s of
        Some v \<Rightarrow> Inr v
      | None \<Rightarrow> Inl (PyExc ''JSONDecodeError'' ''Expecting value''))"

definition example_md5 :: "ustr \<Rightarrow> string" where
  "example_md5 s =
     (if s = ascii ''hello'' then ''5d41402abc4b2a76b9719d911017c592''
      else if s = ascii ''world'' then ''7d793037a0760186574b0282f2f435e7''
      else [])"

text \<open>The double nearest to 0.9, the default \<^verbatim>\<open>BACKPRESSURE_THRESHOLD\<close>.\<close>

definition double_0_9 :: real where
  "double_0_9 = 8106479329266893 / 9007199254740992"

text \<open>
  The product, given on the operands the examples form: \<^verbatim>\<open>20000 * 0.9\<close> is rounded to
  \<^verbatim>\<open>18000.0\<close>, and \<^verbatim>\<open>2 * 0.5\<close> is \<^verbatim>\<open>1.0\<close> as it stands. On other operands the
  function returns the exact product, which is the machine's only where it is a double.
\<close>

definition example_float_mul :: "int \<Rightarrow> pyfloat \<Rightarrow> pyexc + pyfloat" where
  "example_float_mul n x =
     (case x of
        Finite r \<Rightarrow>
          Inr (Finite (if n = 20000 \<and> r = double_0_9 then 18000 else real_of_int n * r))
      | PosInf \<Rightarrow> Inr (if 0 < n then PosInf else if n < 0 then NegInf else NaN)
      | NegInf \<Rightarrow> Inr (if 0 < n then NegInf else if n < 0 then PosInf else NaN)
      | NaN \<Rightarrow> Inr NaN)"

text \<open>An endpoint that answers every batch call with \<open>batch\<close> and every single call with \<open>single\<close>.\<close>

definition replying :: "pyexc + string \<Rightarrow> pyexc + string \<Rightarrow> env" where
  "replying batch single =
     \<lparr>json_loads = example_loads, md5_hexdigest = example_md5,
      time_time = (\<lambda>n. 1000 + real n),
      llm_reply = (\<lambda>n c. case c of BatchCall ps is \<Rightarrow> batch | SingleCall p \<Rightarrow> single),
      float_mul = example_float_mul,
      MAX_QUEUE_SIZE = 20000, BACKPRESSURE_THRESHOLD = Finite double_0_9, BATCH_SIZE = 8\<rparr>"

definition unreachable :: "pyexc + string" where
  "unreachable = Inl (PyExc ''ConnectError'' ''All connection attempts failed'')"

definition queued :: "real \<Rightarrow> lifecycle" where
  "queued t = \<lparr>status = ''queued'', queued_at = t, finished_at = None, result = JNull, error = None\<rparr>"

definition item_a :: payload where
  "item_a = \<lparr>item_id = ''a'', item_text = ascii ''hello'', submitted_at = 10,
             cache_key = ''analyze:5d41402abc4b2a76b9719d911017c592''\<rparr>"

definition item_b :: payload where
  "item_b = \<lparr>item_id = ''b'', item_text = ascii ''world'', submitted_at = 11,
             cache_key = ''analyze:7d793037a0760186574b0282f2f435e7''\<rparr>"

definition w_empty :: world where
  "w_empty = \<lparr>store = Map.empty, queue = [], cache = Map.empty, calls = [], ticks = 0\<rparr>"

text \<open>Two admitted requests, dequeued together by a worker.\<close>

definition w_ab :: world where
  "w_ab = w_empty\<lparr>store := [''a'' \<mapsto> queued 10, ''b'' \<mapsto> queued 11]\<rparr>"

definition req_hello :: analyze_request where
  "req_hello = \<lparr>req_title = None, req_abstract = None, req_text = Some (ascii ''hello''), req_url = None\<rparr>"

definition req_blank :: analyze_request where
  "req_blank = \<lparr>req_title = Some [], req_abstract = None,
                 req_text = Some [0x20, 0xA0, 0x3000, 0x0A], req_url = None\<rparr>"

text \<open>The first request done, the second still queued.\<close>

definition w_done :: world where
  "w_done = w_empty\<lparr>store :=
     [''a'' \<mapsto> \<lparr>status = ''done'', queued_at = 10, finished_at = Some 1000,
                result = elem ''a'' ''A'', error = None\<rparr>,
      ''b'' \<mapsto> queued 11]\<rparr>"

text \<open>One request submitted to the empty system, and the state after a worker took it.\<close>

definition w_submitted :: world where
  "w_submitted = snd (analyze (replying (Inr resp_r1) unreachable) req_hello ''r1'' 10 w_empty)"

definition w_processed :: world where
  "w_processed =
     (case worker_loop (replying (Inr resp_r1) unreachable) 0 w_submitted of
        None \<Rightarrow> w_submitted
      | Some (e, w) \<Rightarrow> w)"

text \<open>A small queue at its threshold: \<open>\<lfloor>2 \<times> 1/2\<rfloor> = 1\<close> item is waiting.\<close>

definition small_env :: env where
  "small_env = (replying unreachable unreachable)\<lparr>MAX_QUEUE_SIZE := 2, BACKPRESSURE_THRESHOLD := Finite (1 / 2)\<rparr>"

definition w_busy :: world where
  "w_busy = w_ab\<lparr>queue := [item_a]\<rparr>"

text \<open>The result of the first request is in the cache.\<close>

definition w_cached :: world where
  "w_cached = w_done\<lparr>cache := [''analyze:5d41402abc4b2a76b9719d911017c592'' \<mapsto> elem ''a'' ''A'']\<rparr>"

text \<open>The same, with the second request waiting in the small queue.\<close>

definition w_cached_busy :: world where
  "w_cached_busy = w_cached\<lparr>queue := [item_b]\<rparr>"

section \<open>Notions used in the statements\<close>

text \<open>What can be a dict key: everything the decoder yields except a list and a dict.\<close>

fun hashable :: "json \<Rightarrow> bool" where
  "hashable (JArr xs) = False"
| "hashable (JObj kvs) = False"
| "hashable v = True"

text \<open>An element the loop over the parsed array passes without raising.\<close>

definition id_field_ok :: "json \<Rightarrow> bool" where
  "id_field_ok obj =
     (case py_get obj ''id'' of
        Inl e \<Rightarrow> False
      | Inr v \<Rightarrow> \<not> truthy v \<or> hashable v)"

text \<open>The exception an element raises in the loop, when it raises one.\<close>

definition raised_by :: "json \<Rightarrow> pyexc option" where
  "raised_by obj =
     (case py_get obj ''id'' of
        Inl e \<Rightarrow> Some e
      | Inr v \<Rightarrow>
          if truthy v \<and> \<not> hashable v
          then Some (PyExc ''TypeError'' (''unhashable type: '' @ quoted (type_name v)))
          else None)"

text \<open>The element carries the request id \<open>r\<close> in its \<^verbatim>\<open>id\<close> field.\<close>

definition names :: "json \<Rightarrow> string \<Rightarrow> bool" where
  "names obj r \<longleftrightarrow> r \<noteq> [] \<and> py_get obj ''id'' = Inr (JStr r)"

text \<open>
  The worker's test on the batch response, \<^verbatim>\<open>isinstance(parsed, list) and
  len(parsed) == len(batch)\<close>: the array when the test passes.
\<close>

definition batch_parsed :: "env \<Rightarrow> string \<Rightarrow> nat \<Rightarrow> json list option" where
  "batch_parsed env content n =
     (case extract_json_from_text env content of
        Inr (JArr objs) \<Rightarrow> if length objs = n then Some objs else None
      | _ \<Rightarrow> None)"

text \<open>
  What every write of a worker keeps: the cache, the queue, the keys of the Store, the
  records that are terminal being terminal, and the log of calls up to what is appended.
\<close>

definition worker_writes :: "world \<Rightarrow> world \<Rightarrow> bool" where
  "worker_writes w w' \<longleftrightarrow>
     cache w' = cache w \<and> queue w' = queue w \<and> dom (store w') = dom (store w)
     \<and> (\<forall>k rec. store w k = Some rec \<longrightarrow> terminal rec \<longrightarrow>
           (\<exists>rec'. store w' k = Some rec' \<and> terminal rec'))
     \<and> (\<exists>cs. calls w' = calls w @ cs)"

section \<open>The search of the regular expression\<close>

lemma greedy_dotstar_None: "greedy_dotstar cls s = None \<longleftrightarrow> cls \<notin> set s"
  by (induction s) (auto split: option.splits)

lemma greedy_dotstar_Some:
  "greedy_dotstar cls s = Some m \<Longrightarrow> \<exists>mid post. m = mid @ [cls] \<and> s = m @ post \<and> cls \<notin> set post"
proof (induction s arbitrary: m)
  case Nil
  then show ?case by simp
next
  case (Cons c cs)
  show ?case
  proof (cases "greedy_dotstar cls cs")
    case None
    with Cons.prems have "c = cls" and "m = [c]" by (auto split: if_splits)
    moreover from None have "cls \<notin> set cs" by (simp add: greedy_dotstar_None)
    ultimately show ?thesis by auto
  next
    case (Some m')
    with Cons.prems have m: "m = c # m'" by simp
    from Cons.IH [OF Some] obtain mid post
      where "m' = mid @ [cls]" "cs = m' @ post" "cls \<notin> set post" by blast
    with m show ?thesis by (intro exI [of _ "c # mid"] exI [of _ post]) simp
  qed
qed

lemma match_block_None:
  "match_block opn cls s = None \<longleftrightarrow> \<not> (\<exists>cs. s = opn # cs \<and> cls \<in> set cs)"
  by (cases s) (auto simp: greedy_dotstar_None split: if_splits)

lemma match_here_None: "match_here s = None \<longleftrightarrow> \<not> opens_block s"
proof -
  have "match_here s = None \<longleftrightarrow>
          match_block (CHR ''{'') (CHR ''}'') s = None \<and> match_block (CHR ''['') (CHR '']'') s = None"
    by (simp add: match_here_def split: option.splits)
  then show ?thesis
    unfolding match_block_None opens_block_def by (cases s) auto
qed

lemma match_block_Some:
  "match_block opn cls s = Some m \<Longrightarrow>
     \<exists>mid post. m = opn # mid @ [cls] \<and> s = m @ post \<and> cls \<notin> set post"
  by (cases s) (auto split: if_splits dest!: greedy_dotstar_Some)

lemma match_here_Some:
  "match_here s = Some m \<Longrightarrow>
     \<exists>opn cls mid post. is_pair opn cls \<and> m = opn # mid @ [cls] \<and> s = m @ post \<and> cls \<notin> set post"
proof -
  assume a: "match_here s = Some m"
  show ?thesis
  proof (cases "match_block (CHR ''{'') (CHR ''}'') s")
    case (Some m')
    with a have "m' = m" by (simp add: match_here_def)
    with Some match_block_Some [of "CHR ''{''" "CHR ''}''" s m] show ?thesis
      unfolding is_pair_def by blast
  next
    case None
    with a have "match_block (CHR ''['') (CHR '']'') s = Some m" by (simp add: match_here_def)
    with match_block_Some [of "CHR ''[''" "CHR '']''" s m] show ?thesis
      unfolding is_pair_def by blast
  qed
qed

lemma re_search_None: "re_search s = None \<longleftrightarrow> (\<forall>k<length s. \<not> opens_block (drop k s))"
proof (induction s)
  case Nil
  then show ?case by simp
next
  case (Cons c cs)
  show ?case
  proof (cases "match_here (c # cs)")
    case None
    then have "\<not> opens_block (c # cs)" by (simp add: match_here_None)
    with None show ?thesis by (auto simp: Cons.IH less_Suc_eq_0_disj)
  next
    case (Some m)
    then have "opens_block (drop 0 (c # cs))" using match_here_None [of "c # cs"] by simp
    with Some show ?thesis by fastforce
  qed
qed

lemma re_search_Some:
  "re_search s = Some m \<Longrightarrow>
     \<exists>pre post opn cls mid. s = pre @ m @ post \<and> m = opn # mid @ [cls] \<and> is_pair opn cls
        \<and> cls \<notin> set post \<and> (\<forall>k<length pre. \<not> opens_block (drop k s))"
proof (induction s)
  case Nil
  then show ?case by simp
next
  case (Cons c cs)
  show ?case
  proof (cases "match_here (c # cs)")
    case (Some m')
    with Cons.prems have "m' = m" by simp
    with Some match_here_Some [of "c # cs" m] obtain opn cls mid post
      where "is_pair opn cls" "m = opn # mid @ [cls]" "c # cs = m @ post" "cls \<notin> set post"
      by blast
    then show ?thesis
      by (intro exI [of _ "[]"] exI [of _ post] exI [of _ opn] exI [of _ cls] exI [of _ mid]) simp
  next
    case None
    with Cons.prems have "re_search cs = Some m" by simp
    from Cons.IH [OF this] obtain pre post opn cls mid
      where *: "cs = pre @ m @ post" "m = opn # mid @ [cls]" "is_pair opn cls"
        "cls \<notin> set post" "\<forall>k<length pre. \<not> opens_block (drop k cs)"
      by blast
    from None have "\<not> opens_block (c # cs)" by (simp add: match_here_None)
    with * have "\<forall>k<length (c # pre). \<not> opens_block (drop k (c # cs))"
      by (auto simp: less_Suc_eq_0_disj)
    with * show ?thesis
      by (intro exI [of _ "c # pre"] exI [of _ post] exI [of _ opn] exI [of _ cls] exI [of _ mid]) simp
  qed
qed

section \<open>Properties of \<^verbatim>\<open>extract_json_from_text\<close>\<close>

lemmas example_strings =
  resp_r1_def resp_swapped_def resp_other_id_def resp_same_id_def resp_list_id_def
  resp_a_again_def resp_dict_id_def resp_number_def resp_summary_def resp_two_objects_def span_first_object_def span_both_objects_def

lemma example_loads_two_objects:
  "example_loads resp_two_objects = Inl (PyExc ''JSONDecodeError'' ''Expecting value'')"
  by (simp add: example_loads_def decoded_def example_strings)

lemma example_loads_both_objects:
  "example_loads span_both_objects = Inl (PyExc ''JSONDecodeError'' ''Expecting value'')"
  by (simp add: example_loads_def decoded_def example_strings)

lemma example_loads_first_object:
  "example_loads span_first_object = Inr (JObj [(''a'', JInt 1)])"
  by (simp add: example_loads_def decoded_def example_strings)

lemma re_search_two_objects: "re_search resp_two_objects = Some span_both_objects"
  by (simp add: example_strings match_here_def)

lemma json_loads_replying [simp]: "json_loads (replying b s) = example_loads"
  by (simp add: replying_def)

text \<open>
  C9. For every string and every decoder, \<^verbatim>\<open>extract_json_from_text\<close> returns: its result
  is a value decoded from the whole string or from the span the search found, or it is
  \<^verbatim>\<open>None\<close>; no exception of the decoder leaves the function.
\<close>

theorem extract_json_from_text_returns:
  "\<exists>v. extract_json_from_text env s = Inr v \<and>
     (json_loads env s = Inr v \<or> (\<exists>m. re_search s = Some m \<and> json_loads env m = Inr v) \<or> v = JNull)"
  unfolding extract_json_from_text_def
  by (cases "json_loads env s"; cases "re_search s"; simp split: sum.splits)

text \<open>
  C8, as the specification states it, fails: on a response with two objects the search
  returns the span from the first opening brace to the last closing brace, which does not
  decode, where the first balanced span is the first object, which does.
\<close>

theorem extract_json_greedy_counterexample:
  "re_search resp_two_objects = Some span_both_objects
   \<and> spec_first_balanced_span resp_two_objects = Some span_first_object
   \<and> example_loads span_first_object = Inr (JObj [(''a'', JInt 1)])
   \<and> extract_json_from_text (replying unreachable unreachable) resp_two_objects = Inr JNull"
proof -
  have "spec_first_balanced_span resp_two_objects = Some span_first_object"
    by (simp add: example_strings spec_balanced_here_def)
  moreover have
    "extract_json_from_text (replying unreachable unreachable) resp_two_objects = Inr JNull"
    by (simp add: extract_json_from_text_def example_loads_two_objects re_search_two_objects
        example_loads_both_objects)
  ultimately show ?thesis
    by (simp add: re_search_two_objects example_loads_first_object)
qed

text \<open>
  C8, amended. A string that decodes is returned decoded. Otherwise the span that is
  decoded starts at the leftmost opening brace or bracket that has its closing delimiter
  somewhere after it, and runs to the last such closing delimiter of the string; when there
  is no such span, or the span does not decode, the result is \<^verbatim>\<open>None\<close>.
\<close>

theorem extract_json_from_text_greedy_span:
  "(\<forall>v. json_loads env s = Inr v \<longrightarrow> extract_json_from_text env s = Inr v) \<and>
   (\<forall>e. json_loads env s = Inl e \<longrightarrow>
      (re_search s = None \<and> (\<forall>k<length s. \<not> opens_block (drop k s))
         \<and> extract_json_from_text env s = Inr JNull)
      \<or> (\<exists>pre m post opn cls mid.
            re_search s = Some m \<and> s = pre @ m @ post \<and> m = opn # mid @ [cls]
            \<and> is_pair opn cls \<and> cls \<notin> set post
            \<and> (\<forall>k<length pre. \<not> opens_block (drop k s))
            \<and> extract_json_from_text env s
                = Inr (case json_loads env m of Inr v \<Rightarrow> v | Inl e' \<Rightarrow> JNull)))"
proof (intro conjI allI impI)
  fix v assume "json_loads env s = Inr v"
  then show "extract_json_from_text env s = Inr v"
    by (simp add: extract_json_from_text_def)
next
  fix e assume fails: "json_loads env s = Inl e"
  show "(re_search s = None \<and> (\<forall>k<length s. \<not> opens_block (drop k s))
           \<and> extract_json_from_text env s = Inr JNull)
        \<or> (\<exists>pre m post opn cls mid.
              re_search s = Some m \<and> s = pre @ m @ post \<and> m = opn # mid @ [cls]
              \<and> is_pair opn cls \<and> cls \<notin> set post
              \<and> (\<forall>k<length pre. \<not> opens_block (drop k s))
              \<and> extract_json_from_text env s
                  = Inr (case json_loads env m of Inr v \<Rightarrow> v | Inl e' \<Rightarrow> JNull))"
  proof (cases "re_search s")
    case None
    moreover from None have "\<forall>k<length s. \<not> opens_block (drop k s)"
      by (simp add: re_search_None)
    moreover from None fails have "extract_json_from_text env s = Inr JNull"
      by (simp add: extract_json_from_text_def)
    ultimately show ?thesis by blast
  next
    case (Some m)
    from re_search_Some [OF Some] obtain pre post opn cls mid
      where span: "s = pre @ m @ post" "m = opn # mid @ [cls]" "is_pair opn cls"
        "cls \<notin> set post" "\<forall>k<length pre. \<not> opens_block (drop k s)"
      by blast
    from Some fails have
      "extract_json_from_text env s = Inr (case json_loads env m of Inr v \<Rightarrow> v | Inl e' \<Rightarrow> JNull)"
      by (simp add: extract_json_from_text_def split: sum.splits)
    with Some span show ?thesis by blast
  qed
qed

theorem extract_json_from_text_greedy_span_witness:
  "json_loads (replying unreachable unreachable) resp_two_objects
     = Inl (PyExc ''JSONDecodeError'' ''Expecting value'')
   \<and> re_search resp_two_objects = Some span_both_objects
   \<and> extract_json_from_text (replying unreachable unreachable) resp_two_objects = Inr JNull"
  using extract_json_from_text_greedy_span [of "replying unreachable unreachable" resp_two_objects]
  by (auto simp add: example_loads_two_objects re_search_two_objects example_loads_both_objects)

section \<open>What a worker never changes\<close>

lemma worker_writes_refl: "worker_writes w w"
  by (simp add: worker_writes_def)

lemma worker_writes_trans:
  assumes "worker_writes w w'" and "worker_writes w' w''"
  shows "worker_writes w w''"
proof -
  have "\<exists>rec''. store w'' k = Some rec'' \<and> terminal rec''"
    if "store w k = Some rec" "terminal rec" for k rec
  proof -
    from assms(1) that obtain rec' where "store w' k = Some rec'" "terminal rec'"
      unfolding worker_writes_def by blast
    with assms(2) show ?thesis unfolding worker_writes_def by blast
  qed
  moreover from assms obtain cs cs' where "calls w' = calls w @ cs" "calls w'' = calls w' @ cs'"
    unfolding worker_writes_def by blast
  then have "\<exists>ds. calls w'' = calls w @ ds" by simp
  ultimately show ?thesis
    using assms unfolding worker_writes_def by simp
qed

lemma update_record_writes:
  assumes "update_record k f w = Inr w'" and "\<And>rec. terminal (f rec)"
  shows "worker_writes w w'"
proof -
  from assms(1) obtain rec where rec: "store w k = Some rec"
    and w': "w' = w\<lparr>store := (store w)(k \<mapsto> f rec)\<rparr>"
    by (auto simp: update_record_def split: option.splits)
  from rec have "dom (store w') = dom (store w)" by (auto simp: w')
  with assms(2) show ?thesis
    by (simp add: worker_writes_def w')
qed

lemma update_record_Inl:
  "update_record k f w = Inl e \<longleftrightarrow> store w k = None \<and> e = PyExc ''KeyError'' (quoted k)"
  by (auto simp: update_record_def split: option.splits)

lemma set_done_writes: "set_done env k v w = Inr w' \<Longrightarrow> worker_writes w w'"
proof -
  assume a: "set_done env k v w = Inr w'"
  then obtain w1 where u: "update_record k
             (\<lambda>rec. rec\<lparr>status := ''done'', result := v,
                        finished_at := Some (time_time env (ticks w))\<rparr>) w = Inr w1"
    and w': "w' = w1\<lparr>ticks := Suc (ticks w)\<rparr>"
    by (auto simp: set_done_def split: sum.splits)
  from u have "worker_writes w w1"
    by (rule update_record_writes) (simp add: terminal_def)
  then show ?thesis by (simp add: worker_writes_def w')
qed

lemma set_error_writes: "set_error k msg w = Inr w' \<Longrightarrow> worker_writes w w'"
proof -
  assume "set_error k msg w = Inr w'"
  then have "update_record k (\<lambda>rec. rec\<lparr>status := ''error'', error := Some msg\<rparr>) w = Inr w'"
    by (simp add: set_error_def)
  then show ?thesis
    by (rule update_record_writes) (simp add: terminal_def)
qed

lemma dispatch_writes: "dispatch env c w = (r, w') \<Longrightarrow> worker_writes w w'"
  by (auto simp: dispatch_def worker_writes_def)

lemma store_results_writes: "worker_writes w (snd (store_results env objs w))"
proof (induction objs arbitrary: w)
  case Nil
  show ?case by (simp add: worker_writes_refl)
next
  case (Cons obj objs)
  show ?case
  proof (cases "py_get obj ''id''")
    case (Inl e)
    then show ?thesis by (simp add: worker_writes_refl)
  next
    case (Inr rid)
    show ?thesis
    proof (cases "truthy rid")
      case False
      with Inr show ?thesis by (simp add: Cons.IH)
    next
      case True
      show ?thesis
      proof (cases "store_key rid w")
        case (Inl e)
        with Inr True show ?thesis by (simp add: worker_writes_refl)
      next
        case key: (Inr ko)
        show ?thesis
        proof (cases ko)
          case None
          with Inr True key show ?thesis by (simp add: Cons.IH)
        next
          case (Some k)
          show ?thesis
          proof (cases "set_done env k obj w")
            case (Inl e)
            with Inr True key Some show ?thesis by (simp add: worker_writes_refl)
          next
            case written: (Inr w')
            then have "worker_writes w w'" by (rule set_done_writes)
            moreover have "worker_writes w' (snd (store_results env objs w'))" by (rule Cons.IH)
            ultimately have "worker_writes w (snd (store_results env objs w'))"
              by (rule worker_writes_trans)
            with Inr True key Some written show ?thesis by simp
          qed
        qed
      qed
    qed
  qed
qed

lemma try_single_writes: "worker_writes w (snd (try_single env b w))"
proof -
  obtain r w1 where d: "dispatch env (SingleCall (item_text b)) w = (r, w1)"
    by (cases "dispatch env (SingleCall (item_text b)) w")
  then have w1: "worker_writes w w1" by (rule dispatch_writes)
  show ?thesis
  proof (cases r)
    case (Inl e)
    with d w1 show ?thesis by (simp add: try_single_def call_groq_single_def)
  next
    case (Inr out)
    show ?thesis
    proof (cases "extract_json_from_text env out")
      case (Inl e)
      with Inr d w1 show ?thesis by (simp add: try_single_def call_groq_single_def)
    next
      case parsed: (Inr parsed_single)
      show ?thesis
      proof (cases "set_done env (item_id b)
                       (if truthy parsed_single then parsed_single
                        else JObj [(''raw'', JStr out)]) w1")
        case (Inl e)
        with Inr parsed d w1 show ?thesis by (simp add: try_single_def call_groq_single_def)
      next
        case written: (Inr w2)
        then have "worker_writes w1 w2" by (rule set_done_writes)
        with w1 have "worker_writes w w2" by (rule worker_writes_trans)
        with Inr parsed d written show ?thesis by (simp add: try_single_def call_groq_single_def)
      qed
    qed
  qed
qed

lemma resolve_single_writes: "worker_writes w (snd (resolve_single env b w))"
proof -
  obtain r w1 where t: "try_single env b w = (r, w1)" by (cases "try_single env b w")
  with try_single_writes [of w env b] have w1: "worker_writes w w1" by simp
  show ?thesis
  proof (cases r)
    case None
    with t w1 show ?thesis by (simp add: resolve_single_def)
  next
    case (Some e)
    show ?thesis
    proof (cases "set_error (item_id b) (exc_str e) w1")
      case (Inl e')
      with Some t w1 show ?thesis by (simp add: resolve_single_def)
    next
      case (Inr w2)
      then have "worker_writes w1 w2" by (rule set_error_writes)
      with w1 have "worker_writes w w2" by (rule worker_writes_trans)
      with Some t Inr show ?thesis by (simp add: resolve_single_def)
    qed
  qed
qed

lemma fallback_writes: "worker_writes w (snd (fallback env batch w))"
proof (induction batch arbitrary: w)
  case Nil
  show ?case by (simp add: worker_writes_refl)
next
  case (Cons b bs)
  obtain r w1 where t: "resolve_single env b w = (r, w1)" by (cases "resolve_single env b w")
  with resolve_single_writes [of w env b] have w1: "worker_writes w w1" by simp
  show ?case
  proof (cases r)
    case None
    from w1 Cons.IH [of w1] have "worker_writes w (snd (fallback env bs w1))"
      by (rule worker_writes_trans)
    with None t show ?thesis by simp
  next
    case (Some e)
    with t w1 show ?thesis by simp
  qed
qed

lemma mark_batch_error_writes: "worker_writes w (snd (mark_batch_error msg batch w))"
proof (induction batch arbitrary: w)
  case Nil
  show ?case by (simp add: worker_writes_refl)
next
  case (Cons b bs)
  show ?case
  proof (cases "set_error (item_id b) msg w")
    case (Inl e)
    then show ?thesis by (simp add: worker_writes_refl)
  next
    case (Inr w1)
    then have "worker_writes w w1" by (rule set_error_writes)
    from this Cons.IH [of w1] have "worker_writes w (snd (mark_batch_error msg bs w1))"
      by (rule worker_writes_trans)
    with Inr show ?thesis by simp
  qed
qed

lemma try_batch_writes: "worker_writes w (snd (try_batch env batch w))"
proof -
  let ?c = "BatchCall (map item_text batch) (map item_id batch)"
  obtain r w1 where d: "dispatch env ?c w = (r, w1)" by (cases "dispatch env ?c w")
  then have w1: "worker_writes w w1" by (rule dispatch_writes)
  have rest: "worker_writes w (snd (store_results env objs w1))"
    "worker_writes w (snd (fallback env batch w1))" for objs
    using w1 store_results_writes fallback_writes by (blast intro: worker_writes_trans)+
  show ?thesis
  proof (cases r)
    case (Inl e)
    with d w1 show ?thesis by (simp add: try_batch_def call_groq_batch_def)
  next
    case (Inr content)
    show ?thesis
    proof (cases "extract_json_from_text env content")
      case (Inl e)
      with Inr d w1 show ?thesis by (simp add: try_batch_def call_groq_batch_def)
    next
      case parsed: (Inr parsed)
      with Inr d rest show ?thesis
        by (cases parsed) (simp_all add: try_batch_def call_groq_batch_def)
    qed
  qed
qed

lemma process_batch_writes: "worker_writes w (snd (process_batch env batch w))"
proof -
  obtain r w1 where t: "try_batch env batch w = (r, w1)" by (cases "try_batch env batch w")
  with try_batch_writes [of w env batch] have w1: "worker_writes w w1" by simp
  show ?thesis
  proof (cases r)
    case None
    with t w1 show ?thesis by (simp add: process_batch_def)
  next
    case (Some e)
    from w1 mark_batch_error_writes [of w1 "exc_str e" batch]
    have "worker_writes w (snd (mark_batch_error (exc_str e) batch w1))"
      by (rule worker_writes_trans)
    with Some t show ?thesis by (simp add: process_batch_def)
  qed
qed

lemma run_batches_writes: "worker_writes w (run_batches env batches w)"
proof (induction batches arbitrary: w)
  case Nil
  show ?case by (simp add: worker_writes_refl)
next
  case (Cons batch rest)
  from process_batch_writes [of w env batch] Cons.IH [of "snd (process_batch env batch w)"]
  show ?case by (simp add: worker_writes_trans)
qed

section \<open>Evaluating the examples\<close>

lemmas example_worlds = w_empty_def w_ab_def w_done_def queued_def item_a_def item_b_def elem_def
  req_hello_def req_blank_def unreachable_def

lemmas worker_defs = process_batch_def try_batch_def call_groq_batch_def call_groq_single_def
  dispatch_def try_single_def resolve_single_def set_done_def set_error_def update_record_def
  get_result_def

lemma replying_simps [simp]:
  "md5_hexdigest (replying b s) = example_md5"
  "time_time (replying b s) n = 1000 + real n"
  "llm_reply (replying b s) n (BatchCall ps is) = b"
  "llm_reply (replying b s) n (SingleCall p) = s"
  "float_mul (replying b s) = example_float_mul"
  "MAX_QUEUE_SIZE (replying b s) = 20000"
  "BACKPRESSURE_THRESHOLD (replying b s) = Finite double_0_9"
  "BATCH_SIZE (replying b s) = 8"
  by (simp_all add: replying_def)

lemma small_env_simps [simp]:
  "md5_hexdigest small_env = example_md5"
  "float_mul small_env = example_float_mul"
  "MAX_QUEUE_SIZE small_env = 2"
  "BACKPRESSURE_THRESHOLD small_env = Finite (1 / 2)"
  by (simp_all add: small_env_def replying_def)

lemma threshold_examples:
  "threshold (replying b s) = Inr 18000"
  "threshold small_env = Inr 1"
  by (simp_all add: threshold_def example_float_mul_def)

lemma example_loads_simps:
  "example_loads resp_r1 = Inr (JArr [elem ''r1'' ''s''])"
  "example_loads resp_swapped = Inr (JArr [elem ''b'' ''B'', elem ''a'' ''A''])"
  "example_loads resp_other_id = Inr (JArr [elem ''a'' ''A'', elem ''zzz'' ''Z''])"
  "example_loads resp_same_id = Inr (JArr [elem ''a'' ''first'', elem ''a'' ''second''])"
  "example_loads resp_list_id = Inr (JArr [JObj [(''id'', JArr [JStr ''x''])]])"
  "example_loads resp_a_again = Inr (JArr [elem ''a'' ''again''])"
  "example_loads resp_dict_id
     = Inr (JArr [elem ''a'' ''A'', JObj [(''id'', JObj [(''k'', JInt 1)])]])"
  "example_loads resp_number = Inr (JArr [elem ''a'' ''A'', JInt 5])"
  "example_loads resp_summary = Inr (JObj [(''summary'', JStr ''ok'')])"
  "example_loads ''{}'' = Inr (JObj [])"
  "example_loads ''nonsense'' = Inl (PyExc ''JSONDecodeError'' ''Expecting value'')"
  by (simp_all add: example_loads_def decoded_def example_strings)

lemma extract_loaded: "json_loads env s = Inr v \<Longrightarrow> extract_json_from_text env s = Inr v"
  by (simp add: extract_json_from_text_def)


section \<open>Failed items\<close>

text \<open>
  C7 fails on the code. When the batch call raises, and when a per-item call raises, the
  record is marked \<^verbatim>\<open>error\<close> and its \<^verbatim>\<open>finished_at\<close> is left as it was, \<^verbatim>\<open>None\<close>; the
  two paths that mark a record \<^verbatim>\<open>done\<close> set it.
\<close>

theorem error_record_without_finished_at:
  "get_result ''a'' (snd (process_batch (replying unreachable unreachable) [item_a, item_b] w_ab))
     = Inr \<lparr>status = ''error'', queued_at = 10, finished_at = None, result = JNull,
            error = Some ''All connection attempts failed''\<rparr>
   \<and> get_result ''b'' (snd (process_batch (replying (Inr ''nonsense'') unreachable)
                              [item_a, item_b] w_ab))
     = Inr \<lparr>status = ''error'', queued_at = 11, finished_at = None, result = JNull,
            error = Some ''All connection attempts failed''\<rparr>"
proof -
  have "re_search ''nonsense'' = None" by (simp add: match_here_def)
  then have "extract_json_from_text (replying (Inr ''nonsense'') unreachable) ''nonsense'' = Inr JNull"
    by (simp add: extract_json_from_text_def example_loads_simps)
  then show ?thesis
    by (simp add: worker_defs example_worlds)
qed

section \<open>Admission\<close>

lemma py_int_le_iff:
  assumes "py_int (Finite x) = Inr limit" and "0 \<le> q"
  shows "limit \<le> q \<longleftrightarrow> \<lfloor>x\<rfloor> \<le> q"
proof (cases "0 \<le> x")
  case True
  with assms show ?thesis by auto
next
  case False
  then have c: "\<lceil>x\<rceil> \<le> 0" by (simp add: ceiling_le_iff)
  have "\<lfloor>x\<rfloor> \<le> \<lceil>x\<rceil>" by (rule floor_le_ceiling)
  with c assms(2) have "\<lceil>x\<rceil> \<le> q" and "\<lfloor>x\<rfloor> \<le> q" by linarith+
  with False assms show ?thesis by auto
qed

lemma threshold_Finite:
  assumes "float_mul env (MAX_QUEUE_SIZE env) (BACKPRESSURE_THRESHOLD env) = Inr (Finite x)"
  shows "\<exists>limit. threshold env = Inr limit
           \<and> (limit \<le> int (length (queue w)) \<longleftrightarrow> \<lfloor>x\<rfloor> \<le> int (length (queue w)))"
proof -
  obtain limit where l: "py_int (Finite x) = Inr limit" by simp
  with assms have "threshold env = Inr limit" by (simp add: threshold_def)
  moreover from l have "limit \<le> int (length (queue w)) \<longleftrightarrow> \<lfloor>x\<rfloor> \<le> int (length (queue w))"
    by (rule py_int_le_iff) simp
  ultimately show ?thesis by blast
qed

lemma threshold_Inr:
  assumes "threshold env = Inr limit"
  shows "\<exists>x. float_mul env (MAX_QUEUE_SIZE env) (BACKPRESSURE_THRESHOLD env) = Inr (Finite x)
           \<and> py_int (Finite x) = Inr limit"
proof (cases "float_mul env (MAX_QUEUE_SIZE env) (BACKPRESSURE_THRESHOLD env)")
  case (Inl e)
  with assms show ?thesis by (simp add: threshold_def)
next
  case (Inr p)
  with assms have "py_int p = Inr limit" by (simp add: threshold_def)
  with Inr show ?thesis by (cases p) simp_all
qed

lemma text_blob_examples: "text_blob req_blank = []" "text_blob req_hello = ascii ''hello''"
  by (simp_all add: text_blob_def parts_def part_def strip_def is_space_def req_blank_def
      req_hello_def ascii_def)

lemma ascii_hello [simp]: "ascii ''hello'' \<noteq> []" "ascii ''hello'' \<noteq> ascii ''world''"
  by (simp_all add: ascii_def)

text \<open>
  C4, as stated, fails for a request whose text is in the cache: the cache is consulted
  before the queue, so at the threshold such a request is served, and a record is created.
\<close>

theorem cache_hit_at_threshold_counterexample:
  "float_mul small_env (MAX_QUEUE_SIZE small_env) (BACKPRESSURE_THRESHOLD small_env)
     = Inr (Finite 1)
   \<and> \<lfloor>1 :: real\<rfloor> \<le> int (length (queue w_cached_busy))
   \<and> get_result ''r2'' w_cached_busy = Inl (404, ''Unknown request_id'')
   \<and> fst (analyze small_env req_hello ''r2'' 12 w_cached_busy)
       = Returned (JObj [(''request_id'', JStr ''r2''), (''status'', JStr ''done''),
                         (''cached'', JBool True)])
   \<and> get_result ''r2'' (snd (analyze small_env req_hello ''r2'' 12 w_cached_busy))
       = Inr \<lparr>status = ''done'', queued_at = 12, finished_at = Some 12,
              result = elem ''a'' ''A'', error = None\<rparr>"
  by (simp add: example_float_mul_def analyze_def Let_def text_blob_examples cache_get_def
      example_md5_def get_result_def w_cached_busy_def w_cached_def w_done_def w_empty_def
      elem_def)

text \<open>
  C4, amended. A request whose trimmed text is empty is refused with 400. A request with
  text that is not in the cache, arriving when the queue holds at least
  \<open>\<lfloor>MAX_QUEUE_SIZE * BACKPRESSURE_THRESHOLD\<rfloor>\<close> items (the product that the machine
  computes), is refused with 429. These are the only refusals, and a refused request leaves
  the Store, the Queue and all the rest as they were.
\<close>

theorem admission_rejections_are_atomic:
  "(text_blob req = [] \<longrightarrow>
      analyze env req rid now w = (Raised 400 (ascii ''No text provided in request''), w))
   \<and> (\<forall>x. text_blob req \<noteq> []
          \<and> cache_get w (''analyze:'' @ md5_hexdigest env (text_blob req)) = JNull
          \<and> float_mul env (MAX_QUEUE_SIZE env) (BACKPRESSURE_THRESHOLD env) = Inr (Finite x)
          \<and> \<lfloor>x\<rfloor> \<le> int (length (queue w))
        \<longrightarrow> analyze env req rid now w = (Raised 429 overloaded_detail, w))
   \<and> (\<forall>code detail. fst (analyze env req rid now w) = Raised code detail \<longrightarrow>
         snd (analyze env req rid now w) = w
         \<and> (code = 400 \<and> text_blob req = []
            \<or> code = 429 \<and> text_blob req \<noteq> []
               \<and> cache_get w (''analyze:'' @ md5_hexdigest env (text_blob req)) = JNull
               \<and> (\<exists>x. float_mul env (MAX_QUEUE_SIZE env) (BACKPRESSURE_THRESHOLD env)
                           = Inr (Finite x)
                        \<and> \<lfloor>x\<rfloor> \<le> int (length (queue w)))))"
proof -
  let ?key = "''analyze:'' @ md5_hexdigest env (text_blob req)"
  have refuse_empty: "analyze env req rid now w = (Raised 400 (ascii ''No text provided in request''), w)"
    if "text_blob req = []"
    using that by (simp add: analyze_def)
  have refuse_busy: "analyze env req rid now w = (Raised 429 overloaded_detail, w)"
    if a: "text_blob req \<noteq> [] \<and> cache_get w ?key = JNull
          \<and> float_mul env (MAX_QUEUE_SIZE env) (BACKPRESSURE_THRESHOLD env) = Inr (Finite x)
          \<and> \<lfloor>x\<rfloor> \<le> int (length (queue w))" for x
  proof -
    from a threshold_Finite [of env x w] obtain limit
      where "threshold env = Inr limit" "limit \<le> int (length (queue w))"
      by blast
    with a show ?thesis by (simp add: analyze_def Let_def)
  qed
  have only_these: "snd (analyze env req rid now w) = w
         \<and> (code = 400 \<and> text_blob req = []
            \<or> code = 429 \<and> text_blob req \<noteq> [] \<and> cache_get w ?key = JNull
               \<and> (\<exists>x. float_mul env (MAX_QUEUE_SIZE env) (BACKPRESSURE_THRESHOLD env)
                           = Inr (Finite x)
                        \<and> \<lfloor>x\<rfloor> \<le> int (length (queue w))))"
    if r: "fst (analyze env req rid now w) = Raised code detail" for code detail
  proof (cases "text_blob req = []")
    case True
    with r show ?thesis by (simp add: analyze_def)
  next
    case blob: False
    show ?thesis
    proof (cases "cache_get w ?key = JNull")
      case False
      with blob r show ?thesis by (simp add: analyze_def Let_def)
    next
      case miss: True
      show ?thesis
      proof (cases "threshold env")
        case (Inl e)
        with blob miss r show ?thesis by (simp add: analyze_def Let_def)
      next
        case (Inr limit)
        from threshold_Inr [OF Inr] obtain x
          where x: "float_mul env (MAX_QUEUE_SIZE env) (BACKPRESSURE_THRESHOLD env)
                      = Inr (Finite x)"
            and l: "py_int (Finite x) = Inr limit"
          by blast
        from l have iff: "limit \<le> int (length (queue w)) \<longleftrightarrow> \<lfloor>x\<rfloor> \<le> int (length (queue w))"
          by (rule py_int_le_iff) simp
        show ?thesis
        proof (cases "limit \<le> int (length (queue w))")
          case True
          with blob miss Inr r have "code = 429" and "snd (analyze env req rid now w) = w"
            by (simp_all add: analyze_def Let_def)
          with blob miss x iff True show ?thesis by blast
        next
          case False
          with blob miss Inr r show ?thesis
            by (simp add: analyze_def Let_def split: if_splits)
        qed
      qed
    qed
  qed
  from refuse_empty refuse_busy only_these show ?thesis by blast
qed

theorem admission_rejections_are_atomic_witness:
  "text_blob req_blank = []
   \<and> analyze small_env req_blank ''r1'' 10 w_busy
       = (Raised 400 (ascii ''No text provided in request''), w_busy)
   \<and> text_blob req_hello \<noteq> []
   \<and> cache_get w_busy (''analyze:'' @ md5_hexdigest small_env (text_blob req_hello)) = JNull
   \<and> float_mul small_env (MAX_QUEUE_SIZE small_env) (BACKPRESSURE_THRESHOLD small_env)
       = Inr (Finite 1)
   \<and> \<lfloor>1 :: real\<rfloor> \<le> int (length (queue w_busy))
   \<and> analyze small_env req_hello ''r2'' 11 w_busy = (Raised 429 overloaded_detail, w_busy)"
proof -
  have a: "text_blob req_blank = []" and b: "text_blob req_hello \<noteq> []"
    by (simp_all add: text_blob_examples)
  have c: "cache_get w_busy (''analyze:'' @ md5_hexdigest small_env (text_blob req_hello)) = JNull"
    by (simp add: cache_get_def w_busy_def w_ab_def w_empty_def)
  have m: "float_mul small_env (MAX_QUEUE_SIZE small_env) (BACKPRESSURE_THRESHOLD small_env)
             = Inr (Finite 1)"
    by (simp add: example_float_mul_def)
  have d: "\<lfloor>1 :: real\<rfloor> \<le> int (length (queue w_busy))"
    by (simp add: w_busy_def)
  from admission_rejections_are_atomic [of req_blank small_env "''r1''" 10 w_busy] a
  have e: "analyze small_env req_blank ''r1'' 10 w_busy
             = (Raised 400 (ascii ''No text provided in request''), w_busy)"
    by blast
  from admission_rejections_are_atomic [of req_hello small_env "''r2''" 11 w_busy] b c m d
  have f: "analyze small_env req_hello ''r2'' 11 w_busy = (Raised 429 overloaded_detail, w_busy)"
    by blast
  from a b c m d e f show ?thesis by blast
qed

text \<open>
  C5. A request with text whose cache lookup gives a value gets a record under the id
  drawn for it, \<^verbatim>\<open>done\<close> with \<open>finished_at\<close> equal to \<open>queued_at\<close> and the cached value as
  result; the reply is \<^verbatim>\<open>{request_id, status: "done", cached: true}\<close>, and the Queue and
  every other record are as before.
\<close>

theorem cache_hit_is_done_at_once:
  assumes "text_blob req \<noteq> []"
    and "cache_get w (''analyze:'' @ md5_hexdigest env (text_blob req)) = cached"
    and "cached \<noteq> JNull"
  shows "fst (analyze env req rid now w)
           = Returned (JObj [(''request_id'', JStr rid), (''status'', JStr ''done''),
                             (''cached'', JBool True)])
         \<and> get_result rid (snd (analyze env req rid now w))
             = Inr \<lparr>status = ''done'', queued_at = now, finished_at = Some now,
                    result = cached, error = None\<rparr>
         \<and> queue (snd (analyze env req rid now w)) = queue w
         \<and> (\<forall>k. k \<noteq> rid \<longrightarrow> store (snd (analyze env req rid now w)) k = store w k)"
  using assms by (simp add: analyze_def Let_def get_result_def)

theorem cache_hit_is_done_at_once_witness:
  "text_blob req_hello \<noteq> []
   \<and> cache_get w_cached (''analyze:'' @ md5_hexdigest small_env (text_blob req_hello)) = elem ''a'' ''A''
   \<and> elem ''a'' ''A'' \<noteq> JNull
   \<and> get_result ''r2'' (snd (analyze small_env req_hello ''r2'' 12 w_cached))
       = Inr \<lparr>status = ''done'', queued_at = 12, finished_at = Some 12,
              result = elem ''a'' ''A'', error = None\<rparr>
   \<and> queue (snd (analyze small_env req_hello ''r2'' 12 w_cached)) = []"
proof -
  have a: "text_blob req_hello \<noteq> []" by (simp add: text_blob_examples)
  have b: "cache_get w_cached (''analyze:'' @ md5_hexdigest small_env (text_blob req_hello))
             = elem ''a'' ''A''"
    by (simp add: text_blob_examples cache_get_def example_md5_def w_cached_def)
  have c: "elem ''a'' ''A'' \<noteq> JNull" by (simp add: elem_def)
  have q: "queue w_cached = []" by (simp add: w_cached_def w_done_def w_empty_def)
  from cache_hit_is_done_at_once [OF a b c, of "''r2''" 12] a b c q show ?thesis by simp
qed

section \<open>The cache\<close>

lemma process_batch_keeps_cache: "cache (snd (process_batch env batch w)) = cache w"
  using process_batch_writes [of w env batch] by (simp add: worker_writes_def)

lemma worker_loop_keeps_cache:
  "worker_loop env arrived w = Some (e, w') \<Longrightarrow> cache w' = cache w"
proof -
  assume a: "worker_loop env arrived w = Some (e, w')"
  then obtain batch w1 where d: "dequeue_batch env arrived w = Some (batch, w1)"
    and p: "process_batch env batch w1 = (e, w')"
    by (auto simp: worker_loop_def split: option.splits)
  from d have "cache w1 = cache w"
    by (auto simp: dequeue_batch_def Let_def split: list.splits)
  moreover from p process_batch_keeps_cache [of env batch w1] have "cache w' = cache w1" by simp
  ultimately show ?thesis by simp
qed

lemma w_submitted_eq:
  "w_submitted = w_empty\<lparr>store := [''r1'' \<mapsto> queued 10],
     queue := [\<lparr>item_id = ''r1'', item_text = ascii ''hello'', submitted_at = 10,
               cache_key = ''analyze:5d41402abc4b2a76b9719d911017c592''\<rparr>]\<rparr>"
  by (simp add: w_submitted_def analyze_def Let_def text_blob_examples cache_get_def w_empty_def
      queue_full_def threshold_examples queued_def example_md5_def)

lemma w_processed_eq:
  "w_processed = w_empty\<lparr>store := [''r1'' \<mapsto> \<lparr>status = ''done'', queued_at = 10,
        finished_at = Some 1000, result = elem ''r1'' ''s'', error = None\<rparr>],
     calls := [BatchCall [ascii ''hello''] [''r1'']], ticks := 1\<rparr>"
  by (simp add: w_processed_def w_submitted_eq worker_loop_def dequeue_batch_def worker_defs
      example_worlds extract_loaded example_loads_simps)

text \<open>
  C1 fails on the code. The worker writes the matched element into the Store, but nothing
  writes the cache: after a request has been processed, the cache has no entry under its
  \<open>cache_key\<close>, and an identical second request is queued for another call.
\<close>

theorem cache_is_never_written:
  "fst (analyze (replying (Inr resp_r1) unreachable) req_hello ''r1'' 10 w_empty)
     = Returned (JObj [(''request_id'', JStr ''r1''), (''status'', JStr ''queued'')])
   \<and> get_result ''r1'' w_processed
       = Inr \<lparr>status = ''done'', queued_at = 10, finished_at = Some 1000,
              result = elem ''r1'' ''s'', error = None\<rparr>
   \<and> cache_get w_processed ''analyze:5d41402abc4b2a76b9719d911017c592'' = JNull
   \<and> fst (analyze (replying (Inr resp_r1) unreachable) req_hello ''r2'' 20 w_processed)
       = Returned (JObj [(''request_id'', JStr ''r2''), (''status'', JStr ''queued'')])
   \<and> queue (snd (analyze (replying (Inr resp_r1) unreachable) req_hello ''r2'' 20 w_processed))
       = [\<lparr>item_id = ''r2'', item_text = ascii ''hello'', submitted_at = 20,
           cache_key = ''analyze:5d41402abc4b2a76b9719d911017c592''\<rparr>]"
  by (simp add: w_processed_eq analyze_def Let_def text_blob_examples cache_get_def w_empty_def
      queue_full_def threshold_examples example_md5_def get_result_def)

section \<open>Matching the batch response\<close>

lemma extract_Inr: "\<exists>v. extract_json_from_text env s = Inr v"
  by (simp add: extract_json_from_text_def split: sum.splits option.splits)

lemma set_done_Some:
  "store w k = Some rec \<Longrightarrow>
   set_done env k v w
     = Inr (w\<lparr>store := (store w)(k \<mapsto> rec\<lparr>status := ''done'', result := v,
                                      finished_at := Some (time_time env (ticks w))\<rparr>),
              ticks := Suc (ticks w)\<rparr>)"
  by (simp add: set_done_def update_record_def)

lemma set_error_Some:
  "store w k = Some rec \<Longrightarrow>
   set_error k msg w
     = Inr (w\<lparr>store := (store w)(k \<mapsto> rec\<lparr>status := ''error'', error := Some msg\<rparr>)\<rparr>)"
  by (simp add: set_error_def update_record_def)

lemma store_results_step:
  assumes "id_field_ok obj"
  shows "(store_results env (obj # objs) w = store_results env objs w
          \<and> (\<forall>r. names obj r \<longrightarrow> r \<notin> dom (store w)))
       \<or> (\<exists>k rec. names obj k \<and> store w k = Some rec
            \<and> store_results env (obj # objs) w
                = store_results env objs
                    (w\<lparr>store := (store w)(k \<mapsto> rec\<lparr>status := ''done'', result := obj,
                                      finished_at := Some (time_time env (ticks w))\<rparr>),
                       ticks := Suc (ticks w)\<rparr>))"
proof -
  from assms obtain rid where rid: "py_get obj ''id'' = Inr rid"
    and ok: "\<not> truthy rid \<or> hashable rid"
    by (auto simp: id_field_ok_def split: sum.splits)
  show ?thesis
  proof (cases "truthy rid")
    case False
    with rid have "store_results env (obj # objs) w = store_results env objs w" by simp
    moreover from False rid have "\<not> names obj r" for r by (auto simp: names_def)
    ultimately show ?thesis by blast
  next
    case True
    with ok have h: "hashable rid" by blast
    show ?thesis
    proof (cases "\<exists>k. rid = JStr k \<and> k \<in> dom (store w)")
      case False
      with h have "store_key rid w = Inr None" by (cases rid) auto
      with rid True have "store_results env (obj # objs) w = store_results env objs w" by simp
      moreover from False rid have "names obj r \<longrightarrow> r \<notin> dom (store w)" for r
        by (auto simp: names_def)
      ultimately show ?thesis by blast
    next
      case key: True
      then obtain k rec where k: "rid = JStr k" and rec: "store w k = Some rec" by auto
      from k rec have sk: "store_key rid w = Inr (Some k)" by auto
      from k True rid have n: "names obj k" by (simp add: names_def)
      from rid True sk set_done_Some [OF rec, of env obj]
      have "store_results env (obj # objs) w
                = store_results env objs
                    (w\<lparr>store := (store w)(k \<mapsto> rec\<lparr>status := ''done'', result := obj,
                                      finished_at := Some (time_time env (ticks w))\<rparr>),
                       ticks := Suc (ticks w)\<rparr>)"
        by simp
      with n rec show ?thesis by blast
    qed
  qed
qed

lemma store_results_matched:
  assumes "\<forall>obj\<in>set objs. id_field_ok obj"
  shows "fst (store_results env objs w) = None
       \<and> calls (snd (store_results env objs w)) = calls w
       \<and> (\<forall>r. r \<in> dom (store w) \<and> (\<exists>obj\<in>set objs. names obj r) \<longrightarrow>
            (\<exists>rec. store (snd (store_results env objs w)) r = Some rec \<and> status rec = ''done''
               \<and> result rec \<in> set objs \<and> names (result rec) r \<and> finished_at rec \<noteq> None))
       \<and> (\<forall>r. (\<forall>obj\<in>set objs. \<not> names obj r) \<longrightarrow>
            store (snd (store_results env objs w)) r = store w r)"
  using assms
proof (induction objs arbitrary: w)
  case Nil
  show ?case by simp
next
  case (Cons obj objs)
  then have ok: "id_field_ok obj" and oks: "\<forall>obj\<in>set objs. id_field_ok obj" by simp_all
  note IH = Cons.IH [OF oks]
  from store_results_step [OF ok, of env objs w] show ?case
  proof (elim disjE conjE exE)
    assume eq: "store_results env (obj # objs) w = store_results env objs w"
      and nokey: "\<forall>r. names obj r \<longrightarrow> r \<notin> dom (store w)"
    show ?thesis
      unfolding eq using IH [of w] nokey by (auto simp: dom_def)
  next
    fix k rec
    assume n: "names obj k" and rec: "store w k = Some rec"
      and eq: "store_results env (obj # objs) w
                = store_results env objs
                    (w\<lparr>store := (store w)(k \<mapsto> rec\<lparr>status := ''done'', result := obj,
                                      finished_at := Some (time_time env (ticks w))\<rparr>),
                       ticks := Suc (ticks w)\<rparr>)"
    let ?w1 = "w\<lparr>store := (store w)(k \<mapsto> rec\<lparr>status := ''done'', result := obj,
                                      finished_at := Some (time_time env (ticks w))\<rparr>),
                       ticks := Suc (ticks w)\<rparr>"
    let ?w' = "snd (store_results env objs ?w1)"
    note ih = IH [of ?w1]
    from rec have dom1: "dom (store ?w1) = dom (store w)" by auto
    have matched: "\<exists>rec'. store ?w' r = Some rec' \<and> status rec' = ''done''
               \<and> result rec' \<in> set (obj # objs) \<and> names (result rec') r \<and> finished_at rec' \<noteq> None"
      if r: "r \<in> dom (store w)" and ex: "\<exists>x\<in>set (obj # objs). names x r" for r
    proof (cases "\<exists>x\<in>set objs. names x r")
      case True
      from r dom1 have "r \<in> dom (store ?w1)" by simp
      with True ih obtain rec' where "store ?w' r = Some rec'" "status rec' = ''done''"
        "result rec' \<in> set objs" "names (result rec') r" "finished_at rec' \<noteq> None"
        by blast
      then show ?thesis by auto
    next
      case False
      with ex have "names obj r" by simp
      with n have "r = k" by (simp add: names_def)
      from False ih have "store ?w' r = store ?w1 r" by blast
      with \<open>r = k\<close> n show ?thesis by simp
    qed
    have untouched: "store ?w' r = store w r" if "\<forall>x\<in>set (obj # objs). \<not> names x r" for r
    proof -
      from that n have "r \<noteq> k" by auto
      moreover from that ih have "store ?w' r = store ?w1 r" by simp
      ultimately show ?thesis by simp
    qed
    from ih have "fst (store_results env objs ?w1) = None"
      and "calls ?w' = calls w" by simp_all
    with matched untouched show ?thesis unfolding eq by blast
  qed
qed

lemma try_batch_parsed:
  assumes "llm_reply env (length (calls w)) (BatchCall (map item_text batch) (map item_id batch))
             = Inr content"
  shows "try_batch env batch w =
           (case batch_parsed env content (length batch) of
              Some objs \<Rightarrow> store_results env objs
                 (w\<lparr>calls := calls w @ [BatchCall (map item_text batch) (map item_id batch)]\<rparr>)
            | None \<Rightarrow> fallback env batch
                 (w\<lparr>calls := calls w @ [BatchCall (map item_text batch) (map item_id batch)]\<rparr>))"
proof -
  obtain parsed where p: "extract_json_from_text env content = Inr parsed"
    using extract_Inr by blast
  with assms show ?thesis
    by (cases parsed) (simp_all add: try_batch_def call_groq_batch_def dispatch_def batch_parsed_def)
qed

lemma process_batch_quiet:
  "try_batch env batch w = (None, w') \<Longrightarrow> process_batch env batch w = (None, w')"
  by (simp add: process_batch_def)

section \<open>The per-item fallback\<close>

lemma resolve_single_eq:
  assumes rec: "store w (item_id b) = Some rec"
  shows "resolve_single env b w =
     (None,
      case llm_reply env (length (calls w)) (SingleCall (item_text b)) of
        Inl e \<Rightarrow> w\<lparr>calls := calls w @ [SingleCall (item_text b)],
                    store := (store w)(item_id b \<mapsto> rec\<lparr>status := ''error'', error := Some (exc_str e)\<rparr>)\<rparr>
      | Inr out \<Rightarrow>
          w\<lparr>calls := calls w @ [SingleCall (item_text b)],
            store := (store w)(item_id b \<mapsto>
              rec\<lparr>status := ''done'',
                  result := (case extract_json_from_text env out of
                               Inr parsed \<Rightarrow> if truthy parsed then parsed
                                              else JObj [(''raw'', JStr out)]
                             | Inl e \<Rightarrow> JNull),
                  finished_at := Some (time_time env (ticks w))\<rparr>),
            ticks := Suc (ticks w)\<rparr>)"
proof (cases "llm_reply env (length (calls w)) (SingleCall (item_text b))")
  case (Inl e)
  with rec show ?thesis
    by (simp add: resolve_single_def try_single_def call_groq_single_def dispatch_def
        set_error_def update_record_def)
next
  case (Inr out)
  obtain parsed where p: "extract_json_from_text env out = Inr parsed"
    using extract_Inr by blast
  with Inr rec show ?thesis
    by (simp add: resolve_single_def try_single_def call_groq_single_def dispatch_def
        set_done_def update_record_def)
qed

lemma resolve_single_frame:
  assumes "store w (item_id b) = Some rec"
  shows "fst (resolve_single env b w) = None"
    and "calls (snd (resolve_single env b w)) = calls w @ [SingleCall (item_text b)]"
    and "dom (store (snd (resolve_single env b w))) = dom (store w)"
    and "k \<noteq> item_id b \<Longrightarrow> store (snd (resolve_single env b w)) k = store w k"
  using assms
  by (auto simp: resolve_single_eq [OF assms] split: sum.splits)

lemma fallback_frame:
  assumes "item_id ` set batch \<subseteq> dom (store w)"
  shows "fst (fallback env batch w) = None
       \<and> calls (snd (fallback env batch w)) = calls w @ map (\<lambda>b. SingleCall (item_text b)) batch
       \<and> (\<forall>k. k \<notin> item_id ` set batch \<longrightarrow> store (snd (fallback env batch w)) k = store w k)"
  using assms
proof (induction batch arbitrary: w)
  case Nil
  show ?case by simp
next
  case (Cons b bs)
  then obtain rec where rec: "store w (item_id b) = Some rec" by auto
  obtain w1 where w1: "resolve_single env b w = (None, w1)"
    using resolve_single_frame(1) [OF rec, of env] by (cases "resolve_single env b w") simp
  from resolve_single_frame(2,3) [OF rec, of env] w1
  have c1: "calls w1 = calls w @ [SingleCall (item_text b)]" and d1: "dom (store w1) = dom (store w)"
    by simp_all
  from resolve_single_frame(4) [OF rec, of _ env] w1
  have o1: "k \<noteq> item_id b \<Longrightarrow> store w1 k = store w k" for k by simp
  from Cons.prems d1 have "item_id ` set bs \<subseteq> dom (store w1)" by simp
  from Cons.IH [OF this] w1 c1 o1 show ?case by simp
qed

lemma fallback_item:
  assumes "distinct (map item_id batch)" and "item_id ` set batch \<subseteq> dom (store w)"
    and "i < length batch"
    and "llm_reply env (length (calls w) + i) (SingleCall (item_text (batch ! i))) = Inr out"
    and "extract_json_from_text env out = Inr parsed"
  shows "\<exists>rec. store (snd (fallback env batch w)) (item_id (batch ! i)) = Some rec
           \<and> status rec = ''done''
           \<and> result rec = (if truthy parsed then parsed else JObj [(''raw'', JStr out)])
           \<and> finished_at rec \<noteq> None"
  using assms
proof (induction batch arbitrary: w i)
  case Nil
  then show ?case by simp
next
  case (Cons b bs)
  then obtain rec where rec: "store w (item_id b) = Some rec" by auto
  obtain w1 where w1: "resolve_single env b w = (None, w1)"
    using resolve_single_frame(1) [OF rec, of env] by (cases "resolve_single env b w") simp
  from resolve_single_frame(2,3) [OF rec, of env] w1
  have c1: "calls w1 = calls w @ [SingleCall (item_text b)]" and d1: "dom (store w1) = dom (store w)"
    by simp_all
  from Cons.prems d1 have sub: "item_id ` set bs \<subseteq> dom (store w1)" by simp
  from Cons.prems have dist: "distinct (map item_id bs)" and fresh: "item_id b \<notin> item_id ` set bs"
    by simp_all
  show ?case
  proof (cases i)
    case 0
    with Cons.prems have reply: "llm_reply env (length (calls w)) (SingleCall (item_text b)) = Inr out"
      by simp
    from resolve_single_eq [OF rec, of env] reply Cons.prems(5)
    have "snd (resolve_single env b w) =
            w\<lparr>calls := calls w @ [SingleCall (item_text b)],
              store := (store w)(item_id b \<mapsto>
                rec\<lparr>status := ''done'',
                    result := (if truthy parsed then parsed else JObj [(''raw'', JStr out)]),
                    finished_at := Some (time_time env (ticks w))\<rparr>),
              ticks := Suc (ticks w)\<rparr>"
      by simp
    with w1 have "store w1 (item_id b)
            = Some (rec\<lparr>status := ''done'',
                        result := (if truthy parsed then parsed else JObj [(''raw'', JStr out)]),
                        finished_at := Some (time_time env (ticks w))\<rparr>)"
      by simp
    moreover from fallback_frame [OF sub, of env] fresh
    have "store (snd (fallback env bs w1)) (item_id b) = store w1 (item_id b)" by blast
    ultimately show ?thesis using 0 w1 by simp
  next
    case (Suc j)
    with Cons.prems have j: "j < length bs"
      and reply: "llm_reply env (length (calls w1) + j) (SingleCall (item_text (bs ! j))) = Inr out"
      by (simp_all add: c1)
    from Cons.IH [OF dist sub j reply Cons.prems(5)] Suc w1 show ?thesis by simp
  qed
qed

section \<open>Unguarded writes\<close>

lemma store_results_head:
  assumes "id_field_ok obj"
  shows "\<exists>w1. (\<forall>objs. store_results env (obj # objs) w = store_results env objs w1)
           \<and> (w1 = w \<and> (\<forall>r. names obj r \<longrightarrow> r \<notin> dom (store w))
              \<or> (\<exists>k rec. names obj k \<and> store w k = Some rec
                    \<and> w1 = w\<lparr>store := (store w)(k \<mapsto> rec\<lparr>status := ''done'', result := obj,
                                      finished_at := Some (time_time env (ticks w))\<rparr>),
                               ticks := Suc (ticks w)\<rparr>))"
proof -
  from assms obtain rid where rid: "py_get obj ''id'' = Inr rid"
    and ok: "\<not> truthy rid \<or> hashable rid"
    by (auto simp: id_field_ok_def split: sum.splits)
  show ?thesis
  proof (cases "truthy rid")
    case False
    with rid have "\<forall>objs. store_results env (obj # objs) w = store_results env objs w" by simp
    moreover from False rid have "\<not> names obj r" for r by (auto simp: names_def)
    ultimately show ?thesis by blast
  next
    case True
    with ok have h: "hashable rid" by blast
    show ?thesis
    proof (cases "\<exists>k. rid = JStr k \<and> k \<in> dom (store w)")
      case False
      with h have "store_key rid w = Inr None" by (cases rid) auto
      with rid True have "\<forall>objs. store_results env (obj # objs) w = store_results env objs w"
        by simp
      moreover from False rid have "names obj r \<longrightarrow> r \<notin> dom (store w)" for r
        by (auto simp: names_def)
      ultimately show ?thesis by blast
    next
      case key: True
      then obtain k rec where k: "rid = JStr k" and rec: "store w k = Some rec" by auto
      from k rec have sk: "store_key rid w = Inr (Some k)" by auto
      from k True rid have n: "names obj k" by (simp add: names_def)
      let ?w1 = "w\<lparr>store := (store w)(k \<mapsto> rec\<lparr>status := ''done'', result := obj,
                                      finished_at := Some (time_time env (ticks w))\<rparr>),
                               ticks := Suc (ticks w)\<rparr>"
      from rid True sk set_done_Some [OF rec, of env obj]
      have "\<forall>objs. store_results env (obj # objs) w = store_results env objs ?w1"
        by simp
      with n rec show ?thesis by blast
    qed
  qed
qed

lemma store_results_append:
  assumes "\<forall>x\<in>set pre. id_field_ok x"
  shows "store_results env (pre @ rest) w = store_results env rest (snd (store_results env pre w))"
  using assms
proof (induction pre arbitrary: w)
  case Nil
  show ?case by simp
next
  case (Cons obj objs)
  then have ok: "id_field_ok obj" and oks: "\<forall>x\<in>set objs. id_field_ok x" by simp_all
  from store_results_head [OF ok, of env w] obtain w1
    where w1: "\<forall>xs. store_results env (obj # xs) w = store_results env xs w1"
    by blast
  then have "store_results env ((obj # objs) @ rest) w = store_results env (objs @ rest) w1"
    and "store_results env (obj # objs) w = store_results env objs w1"
    by simp_all
  with Cons.IH [OF oks, of w1] show ?case by simp
qed

lemma id_field_ok_raised_by: "id_field_ok obj \<longleftrightarrow> raised_by obj = None"
  by (simp add: id_field_ok_def raised_by_def split: sum.splits)

lemma store_results_raise:
  assumes "raised_by obj = Some e"
  shows "store_results env (obj # objs) w = (Some e, w)"
proof (cases "py_get obj ''id''")
  case (Inl e')
  with assms show ?thesis by (simp add: raised_by_def)
next
  case (Inr v)
  with assms have t: "truthy v" and h: "\<not> hashable v"
    and e: "e = PyExc ''TypeError'' (''unhashable type: '' @ quoted (type_name v))"
    by (auto simp: raised_by_def split: if_splits)
  from h e have "store_key v w = Inl e" by (cases v) simp_all
  with Inr t show ?thesis by simp
qed

lemma store_results_raises_after:
  assumes "\<forall>x\<in>set pre. id_field_ok x" and "raised_by bad = Some e"
  shows "store_results env (pre @ bad # post) w = (Some e, snd (store_results env pre w))"
  using store_results_append [OF assms(1), of env "bad # post" w]
    store_results_raise [OF assms(2), of env post]
  by simp


lemma mark_batch_error_eq:
  assumes "item_id ` set batch \<subseteq> dom (store w)"
  shows "fst (mark_batch_error msg batch w) = None
       \<and> (\<forall>k. store (snd (mark_batch_error msg batch w)) k
              = (if k \<in> item_id ` set batch
                 then map_option (\<lambda>rec. rec\<lparr>status := ''error'', error := Some msg\<rparr>) (store w k)
                 else store w k))"
  using assms
proof (induction batch arbitrary: w)
  case Nil
  show ?case by simp
next
  case (Cons b bs)
  then obtain rec where rec: "store w (item_id b) = Some rec" by auto
  let ?w1 = "w\<lparr>store := (store w)(item_id b \<mapsto> rec\<lparr>status := ''error'', error := Some msg\<rparr>)\<rparr>"
  from set_error_Some [OF rec, of msg]
  have step: "mark_batch_error msg (b # bs) w = mark_batch_error msg bs ?w1" by simp
  from Cons.prems rec have "item_id ` set bs \<subseteq> dom (store ?w1)" by auto
  from Cons.IH [OF this] rec show ?case unfolding step by auto
qed

lemma process_batch_raised:
  assumes "fst (try_batch env batch w) = Some e"
    and "item_id ` set batch \<subseteq> dom (store w)"
  shows "fst (process_batch env batch w) = None
       \<and> dom (store (snd (process_batch env batch w))) = dom (store w)
       \<and> (\<forall>k. store (snd (process_batch env batch w)) k
              = (if k \<in> item_id ` set batch
                 then map_option (\<lambda>rec. rec\<lparr>status := ''error'', error := Some (exc_str e)\<rparr>)
                        (store (snd (try_batch env batch w)) k)
                 else store (snd (try_batch env batch w)) k))"
proof -
  obtain w1 where t: "try_batch env batch w = (Some e, w1)"
    using assms(1) by (cases "try_batch env batch w") simp
  from try_batch_writes [of w env batch] t have d: "dom (store w1) = dom (store w)"
    by (simp add: worker_writes_def)
  with assms(2) have sub: "item_id ` set batch \<subseteq> dom (store w1)" by simp
  from t have p: "process_batch env batch w = mark_batch_error (exc_str e) batch w1"
    by (simp add: process_batch_def)
  from process_batch_writes [of w env batch]
  have "dom (store (snd (process_batch env batch w))) = dom (store w)"
    by (simp add: worker_writes_def)
  with mark_batch_error_eq [OF sub, of "exc_str e"] t show ?thesis unfolding p by simp
qed

lemma try_batch_raised:
  assumes "llm_reply env (length (calls w)) (BatchCall (map item_text batch) (map item_id batch))
             = Inr content"
    and "batch_parsed env content (length batch) = Some (pre @ bad # post)"
    and "\<forall>x\<in>set pre. id_field_ok x" and "raised_by bad = Some e"
  shows "try_batch env batch w
           = (Some e, snd (store_results env pre
                (w\<lparr>calls := calls w @ [BatchCall (map item_text batch) (map item_id batch)]\<rparr>)))"
  using try_batch_parsed [OF assms(1)] assms(2) store_results_raises_after [OF assms(3,4)]
  by simp

section \<open>A batch from the call to the Store\<close>

lemma batch_parsed_examples:
  "batch_parsed (replying b s) resp_swapped (Suc (Suc 0)) = Some [elem ''b'' ''B'', elem ''a'' ''A'']"
  "batch_parsed (replying b s) resp_other_id (Suc (Suc 0)) = Some [elem ''a'' ''A'', elem ''zzz'' ''Z'']"
  "batch_parsed (replying b s) ''nonsense'' n = None"
  by (simp_all add: batch_parsed_def extract_loaded example_loads_simps
      extract_json_from_text_def match_here_def)

text \<open>
  C2 fails on the code in its second half. The response has the length of the batch and
  names \<open>a\<close> and an id that no item has: the worker makes no per-item call for \<open>b\<close>, whose
  id is absent from the array, and the record of \<open>b\<close> stays \<^verbatim>\<open>queued\<close>. The fallback loop
  and the outer handler, which resolve every item of a batch, are not reached.
\<close>

theorem unmatched_item_is_never_resolved:
  "batch_parsed (replying (Inr resp_other_id) unreachable) resp_other_id (length [item_a, item_b])
     = Some [elem ''a'' ''A'', elem ''zzz'' ''Z'']
   \<and> fst (process_batch (replying (Inr resp_other_id) unreachable) [item_a, item_b] w_ab) = None
   \<and> calls (snd (process_batch (replying (Inr resp_other_id) unreachable) [item_a, item_b] w_ab))
       = [BatchCall [ascii ''hello'', ascii ''world''] [''a'', ''b'']]
   \<and> get_result ''a'' (snd (process_batch (replying (Inr resp_other_id) unreachable)
                              [item_a, item_b] w_ab))
       = Inr \<lparr>status = ''done'', queued_at = 10, finished_at = Some 1000,
              result = elem ''a'' ''A'', error = None\<rparr>
   \<and> get_result ''b'' (snd (process_batch (replying (Inr resp_other_id) unreachable)
                              [item_a, item_b] w_ab))
       = Inr \<lparr>status = ''queued'', queued_at = 11, finished_at = None, result = JNull,
              error = None\<rparr>"
  by (simp add: batch_parsed_examples worker_defs example_worlds extract_loaded example_loads_simps)

text \<open>
  The first half of C2 holds. When the batch response parses to an array of the batch
  length (whose elements are dicts with an \<^verbatim>\<open>id\<close> that can be looked up), every record
  whose key an element names is marked \<^verbatim>\<open>done\<close> with, as result, an element of the array
  that names that key, whatever the order of the array. The per-item calls are made, one
  for every item of the batch in order, when the response does not parse to such an array.
\<close>

lemma batch_results_matched_by_id:
  assumes "llm_reply env (length (calls w)) (BatchCall (map item_text batch) (map item_id batch))
             = Inr content"
  shows "(\<forall>objs. batch_parsed env content (length batch) = Some objs
             \<and> (\<forall>obj\<in>set objs. id_field_ok obj) \<longrightarrow>
            fst (process_batch env batch w) = None
            \<and> calls (snd (process_batch env batch w))
                = calls w @ [BatchCall (map item_text batch) (map item_id batch)]
            \<and> (\<forall>r. r \<in> dom (store w) \<and> (\<exists>obj\<in>set objs. names obj r) \<longrightarrow>
                  (\<exists>rec. store (snd (process_batch env batch w)) r = Some rec
                     \<and> status rec = ''done'' \<and> result rec \<in> set objs
                     \<and> names (result rec) r \<and> finished_at rec \<noteq> None))
            \<and> (\<forall>r. (\<forall>obj\<in>set objs. \<not> names obj r) \<longrightarrow>
                  store (snd (process_batch env batch w)) r = store w r))
       \<and> (batch_parsed env content (length batch) = None
             \<and> item_id ` set batch \<subseteq> dom (store w) \<longrightarrow>
            fst (process_batch env batch w) = None
            \<and> calls (snd (process_batch env batch w))
                = calls w @ BatchCall (map item_text batch) (map item_id batch)
                    # map (\<lambda>b. SingleCall (item_text b)) batch)"
proof -
  let ?c = "BatchCall (map item_text batch) (map item_id batch)"
  let ?w1 = "w\<lparr>calls := calls w @ [?c]\<rparr>"
  have matched: "fst (process_batch env batch w) = None
            \<and> calls (snd (process_batch env batch w)) = calls w @ [?c]
            \<and> (\<forall>r. r \<in> dom (store w) \<and> (\<exists>obj\<in>set objs. names obj r) \<longrightarrow>
                  (\<exists>rec. store (snd (process_batch env batch w)) r = Some rec
                     \<and> status rec = ''done'' \<and> result rec \<in> set objs
                     \<and> names (result rec) r \<and> finished_at rec \<noteq> None))
            \<and> (\<forall>r. (\<forall>obj\<in>set objs. \<not> names obj r) \<longrightarrow>
                  store (snd (process_batch env batch w)) r = store w r)"
    if a: "batch_parsed env content (length batch) = Some objs
             \<and> (\<forall>obj\<in>set objs. id_field_ok obj)" for objs
  proof -
    from a have ok: "\<forall>obj\<in>set objs. id_field_ok obj" by blast
    from a try_batch_parsed [OF assms] have t: "try_batch env batch w = store_results env objs ?w1"
      by simp
    note m = store_results_matched [OF ok, of env ?w1]
    from m have "try_batch env batch w = (None, snd (store_results env objs ?w1))"
      unfolding t by (cases "store_results env objs ?w1") simp
    then have p: "process_batch env batch w = (None, snd (store_results env objs ?w1))"
      by (rule process_batch_quiet)
    from m show ?thesis unfolding p by simp
  qed
  have fell_back: "fst (process_batch env batch w) = None
            \<and> calls (snd (process_batch env batch w))
                = calls w @ ?c # map (\<lambda>b. SingleCall (item_text b)) batch"
    if a: "batch_parsed env content (length batch) = None
             \<and> item_id ` set batch \<subseteq> dom (store w)"
  proof -
    from a have sub: "item_id ` set batch \<subseteq> dom (store ?w1)" by simp
    from a try_batch_parsed [OF assms] have t: "try_batch env batch w = fallback env batch ?w1"
      by simp
    note f = fallback_frame [OF sub, of env]
    from f have "try_batch env batch w = (None, snd (fallback env batch ?w1))"
      unfolding t by (cases "fallback env batch ?w1") simp
    then have p: "process_batch env batch w = (None, snd (fallback env batch ?w1))"
      by (rule process_batch_quiet)
    from f show ?thesis unfolding p by simp
  qed
  from matched fell_back show ?thesis by blast
qed

text \<open>
  C6, as stated, fails when the content parses to a falsy value: the reply \<^verbatim>\<open>{}\<close> decodes
  to the empty object, and the result stored is \<^verbatim>\<open>{"raw": "{}"}\<close>.
\<close>

theorem falsy_parse_counterexample:
  "extract_json_from_text (replying (Inr ''nonsense'') (Inr ''{}'')) ''{}'' = Inr (JObj [])
   \<and> get_result ''a'' (snd (process_batch (replying (Inr ''nonsense'') (Inr ''{}''))
                              [item_a, item_b] w_ab))
       = Inr \<lparr>status = ''done'', queued_at = 10, finished_at = Some 1000,
              result = JObj [(''raw'', JStr ''{}'')], error = None\<rparr>"
proof -
  have "re_search ''nonsense'' = None" by (simp add: match_here_def)
  then have "extract_json_from_text (replying (Inr ''nonsense'') (Inr ''{}'')) ''nonsense'' = Inr JNull"
    by (simp add: extract_json_from_text_def example_loads_simps)
  then show ?thesis
    by (simp add: worker_defs example_worlds extract_loaded example_loads_simps)
qed

text \<open>
  C6, amended. In the per-item fallback (the batch call returned and its response is not an
  array of the batch length), an item whose single call returns ends \<^verbatim>\<open>done\<close>, never
  \<^verbatim>\<open>error\<close>: with the parsed value as result when parsing gives a truthy value, and with
  \<^verbatim>\<open>{"raw": content}\<close> when parsing fails or gives \<^verbatim>\<open>None\<close>, \<^verbatim>\<open>false\<close>, zero or an empty
  string, array or object. The items of a batch have distinct ids and a record each.
\<close>

theorem fallback_item_is_done:
  assumes "llm_reply env (length (calls w)) (BatchCall (map item_text batch) (map item_id batch))
             = Inr content"
    and "batch_parsed env content (length batch) = None"
    and "distinct (map item_id batch)" and "item_id ` set batch \<subseteq> dom (store w)"
    and "i < length batch"
    and "llm_reply env (Suc (length (calls w)) + i) (SingleCall (item_text (batch ! i))) = Inr out"
  shows "\<exists>parsed rec. extract_json_from_text env out = Inr parsed
           \<and> store (snd (process_batch env batch w)) (item_id (batch ! i)) = Some rec
           \<and> status rec = ''done''
           \<and> result rec = (if truthy parsed then parsed else JObj [(''raw'', JStr out)])
           \<and> finished_at rec \<noteq> None"
proof -
  let ?c = "BatchCall (map item_text batch) (map item_id batch)"
  let ?w1 = "w\<lparr>calls := calls w @ [?c]\<rparr>"
  obtain parsed where parsed: "extract_json_from_text env out = Inr parsed"
    using extract_Inr by blast
  from assms(4) have sub: "item_id ` set batch \<subseteq> dom (store ?w1)" by simp
  from assms(2) try_batch_parsed [OF assms(1)]
  have t: "try_batch env batch w = fallback env batch ?w1" by simp
  from fallback_frame [OF sub, of env]
  have "try_batch env batch w = (None, snd (fallback env batch ?w1))"
    unfolding t by (cases "fallback env batch ?w1") simp
  then have p: "process_batch env batch w = (None, snd (fallback env batch ?w1))"
    by (rule process_batch_quiet)
  from assms(6) have reply:
    "llm_reply env (length (calls ?w1) + i) (SingleCall (item_text (batch ! i))) = Inr out"
    by simp
  from fallback_item [OF assms(3) sub assms(5) reply parsed] parsed show ?thesis
    unfolding p by auto
qed

theorem fallback_item_is_done_witness:
  "llm_reply (replying (Inr ''nonsense'') (Inr resp_summary)) (length (calls w_ab))
       (BatchCall (map item_text [item_a, item_b]) (map item_id [item_a, item_b]))
     = Inr ''nonsense''
   \<and> batch_parsed (replying (Inr ''nonsense'') (Inr resp_summary)) ''nonsense''
       (length [item_a, item_b]) = None
   \<and> distinct (map item_id [item_a, item_b])
   \<and> item_id ` set [item_a, item_b] \<subseteq> dom (store w_ab)
   \<and> (0::nat) < length [item_a, item_b]
   \<and> llm_reply (replying (Inr ''nonsense'') (Inr resp_summary)) (Suc (length (calls w_ab)) + 0)
       (SingleCall (item_text ([item_a, item_b] ! 0))) = Inr resp_summary
   \<and> extract_json_from_text (replying (Inr ''nonsense'') (Inr resp_summary)) resp_summary
       = Inr (JObj [(''summary'', JStr ''ok'')])
   \<and> (\<exists>rec. store (snd (process_batch (replying (Inr ''nonsense'') (Inr resp_summary))
                              [item_a, item_b] w_ab)) ''a'' = Some rec
          \<and> status rec = ''done'' \<and> result rec = JObj [(''summary'', JStr ''ok'')])"
proof -
  let ?env = "replying (Inr ''nonsense'') (Inr resp_summary)"
  let ?batch = "[item_a, item_b]"
  have a1: "llm_reply ?env (length (calls w_ab))
              (BatchCall (map item_text ?batch) (map item_id ?batch)) = Inr ''nonsense''"
    by simp
  have a2: "batch_parsed ?env ''nonsense'' (length ?batch) = None"
    by (simp add: batch_parsed_examples)
  have a3: "distinct (map item_id ?batch)" by (simp add: item_a_def item_b_def)
  have a4: "item_id ` set ?batch \<subseteq> dom (store w_ab)"
    by (simp add: item_a_def item_b_def w_ab_def w_empty_def)
  have a5: "(0::nat) < length ?batch" by simp
  have a6: "llm_reply ?env (Suc (length (calls w_ab)) + 0) (SingleCall (item_text (?batch ! 0)))
              = Inr resp_summary"
    by simp
  have e: "extract_json_from_text ?env resp_summary = Inr (JObj [(''summary'', JStr ''ok'')])"
    by (simp add: extract_loaded example_loads_simps)
  have i: "item_id (?batch ! 0) = ''a''" by (simp add: item_a_def)
  from fallback_item_is_done [OF a1 a2 a3 a4 a5 a6] e i
  have k: "\<exists>rec. store (snd (process_batch ?env ?batch w_ab)) ''a'' = Some rec
          \<and> status rec = ''done'' \<and> result rec = JObj [(''summary'', JStr ''ok'')]"
    by auto
  from a1 a2 a3 a4 a5 a6 e k show ?thesis by blast
qed

section \<open>Workers and the Store\<close>

text \<open>
  C10, as stated, fails for an element whose \<^verbatim>\<open>id\<close> is a non-empty list: it is no Store key,
  yet the membership test raises \<^verbatim>\<open>TypeError\<close>, and the outer handler marks the batch as
  failed.
\<close>

theorem unhashable_id_counterexample:
  "store_results (replying (Inr resp_list_id) unreachable) [JObj [(''id'', JArr [JStr ''x''])]] w_ab
     = (Some (PyExc ''TypeError'' (''unhashable type: '' @ quoted ''list'')), w_ab)
   \<and> get_result ''a'' (snd (process_batch (replying (Inr resp_list_id) unreachable) [item_a] w_ab))
       = Inr \<lparr>status = ''error'', queued_at = 10, finished_at = None, result = JNull,
              error = Some (''unhashable type: '' @ quoted ''list'')\<rparr>"
  by (simp add: worker_defs example_worlds extract_loaded example_loads_simps)

text \<open>
  C10, amended. No batch, and no sequence of batches, changes the set of request ids in the
  Store; a call of the admission handler adds at most the id it drew. An element of the
  parsed array that is a dict is passed over, with no exception and no write, when its
  \<^verbatim>\<open>id\<close> is missing or falsy, or is a string, number or boolean that is not a Store key.
  An element whose \<^verbatim>\<open>id\<close> is a non-empty list or dict raises \<^verbatim>\<open>TypeError\<close> in the
  membership test, and an element that is not a dict raises \<^verbatim>\<open>AttributeError\<close>; the loop
  stops there, and the handler marks every item of the batch \<^verbatim>\<open>error\<close> with the message
  of the exception.
\<close>

theorem workers_never_create_records:
  "dom (store (snd (process_batch env batch w))) = dom (store w)
   \<and> dom (store (run_batches env batches w)) = dom (store w)
   \<and> dom (store (snd (analyze env req rid now w))) \<subseteq> insert rid (dom (store w))
   \<and> (\<forall>v. py_get obj ''id'' = Inr v
          \<and> (\<not> truthy v \<or> hashable v \<and> (\<forall>s. v = JStr s \<longrightarrow> s \<notin> dom (store w)))
        \<longrightarrow> store_results env (obj # objs) w = store_results env objs w)
   \<and> (\<forall>v. py_get obj ''id'' = Inr v \<and> truthy v \<and> \<not> hashable v
        \<longrightarrow> store_results env (obj # objs) w
              = (Some (PyExc ''TypeError'' (''unhashable type: '' @ quoted (type_name v))), w))
   \<and> ((\<forall>kvs. obj \<noteq> JObj kvs)
        \<longrightarrow> store_results env (obj # objs) w
              = (Some (PyExc ''AttributeError''
                         (quoted (type_name obj) @ '' object has no attribute '' @ quoted ''get'')),
                 w))
   \<and> (\<forall>content pre bad post e.
         llm_reply env (length (calls w)) (BatchCall (map item_text batch) (map item_id batch))
           = Inr content
         \<and> batch_parsed env content (length batch) = Some (pre @ bad # post)
         \<and> (\<forall>x\<in>set pre. id_field_ok x) \<and> raised_by bad = Some e
         \<and> item_id ` set batch \<subseteq> dom (store w)
        \<longrightarrow> fst (process_batch env batch w) = None
            \<and> (\<forall>b\<in>set batch. \<exists>rec. store (snd (process_batch env batch w)) (item_id b) = Some rec
                   \<and> status rec = ''error'' \<and> error rec = Some (exc_str e)))"
proof -
  have p1: "dom (store (snd (process_batch env batch w))) = dom (store w)"
    using process_batch_writes [of w env batch] by (simp add: worker_writes_def)
  have p2: "dom (store (run_batches env batches w)) = dom (store w)"
    using run_batches_writes [of w env batches] by (simp add: worker_writes_def)
  have p3: "dom (store (snd (analyze env req rid now w))) \<subseteq> insert rid (dom (store w))"
    by (auto simp: analyze_def Let_def split: sum.splits)
  have p4: "store_results env (obj # objs) w = store_results env objs w"
    if a: "py_get obj ''id'' = Inr v
      \<and> (\<not> truthy v \<or> hashable v \<and> (\<forall>s. v = JStr s \<longrightarrow> s \<notin> dom (store w)))" for v
  proof (cases "truthy v")
    case False
    with a show ?thesis by simp
  next
    case True
    with a have "hashable v" and "\<forall>s. v = JStr s \<longrightarrow> s \<notin> dom (store w)" by blast+
    then have "store_key v w = Inr None" by (cases v) simp_all
    with a True show ?thesis by simp
  qed
  have p5: "store_results env (obj # objs) w
              = (Some (PyExc ''TypeError'' (''unhashable type: '' @ quoted (type_name v))), w)"
    if a: "py_get obj ''id'' = Inr v \<and> truthy v \<and> \<not> hashable v" for v
  proof -
    from a have "raised_by obj
                   = Some (PyExc ''TypeError'' (''unhashable type: '' @ quoted (type_name v)))"
      by (simp add: raised_by_def)
    then show ?thesis by (rule store_results_raise)
  qed
  have p6: "store_results env (obj # objs) w
              = (Some (PyExc ''AttributeError''
                         (quoted (type_name obj) @ '' object has no attribute '' @ quoted ''get'')),
                 w)"
    if "\<forall>kvs. obj \<noteq> JObj kvs"
    using that by (cases obj) simp_all
  have p7: "fst (process_batch env batch w) = None
            \<and> (\<forall>b\<in>set batch. \<exists>rec. store (snd (process_batch env batch w)) (item_id b) = Some rec
                   \<and> status rec = ''error'' \<and> error rec = Some (exc_str e))"
    if a: "llm_reply env (length (calls w)) (BatchCall (map item_text batch) (map item_id batch))
           = Inr content
         \<and> batch_parsed env content (length batch) = Some (pre @ bad # post)
         \<and> (\<forall>x\<in>set pre. id_field_ok x) \<and> raised_by bad = Some e
         \<and> item_id ` set batch \<subseteq> dom (store w)" for content pre bad post e
  proof -
    from a have sub: "item_id ` set batch \<subseteq> dom (store w)" by blast
    from a try_batch_raised [of env w batch content pre bad post e]
    have t: "fst (try_batch env batch w) = Some e" by simp
    note r = process_batch_raised [OF t sub]
    from try_batch_writes [of w env batch] have d: "dom (store (snd (try_batch env batch w))) = dom (store w)"
      by (simp add: worker_writes_def)
    have "\<exists>rec. store (snd (process_batch env batch w)) (item_id b) = Some rec
                   \<and> status rec = ''error'' \<and> error rec = Some (exc_str e)"
      if b: "b \<in> set batch" for b
    proof -
      from b sub d obtain rec1 where "store (snd (try_batch env batch w)) (item_id b) = Some rec1"
        by auto
      with r b show ?thesis by simp
    qed
    with r show ?thesis by blast
  qed
  from p1 p2 p3 p4 p5 p6 p7 show ?thesis by blast
qed

lemma raised_by_examples:
  "raised_by (JObj [(''id'', JObj [(''k'', JInt 1)])])
     = Some (PyExc ''TypeError'' (''unhashable type: '' @ quoted ''dict''))"
  "raised_by (JObj [(''id'', JArr [JStr ''x''])])
     = Some (PyExc ''TypeError'' (''unhashable type: '' @ quoted ''list''))"
  "raised_by (JInt 5)
     = Some (PyExc ''AttributeError'' (quoted ''int'' @ '' object has no attribute '' @ quoted ''get''))"
  by (simp_all add: raised_by_def)

lemma batch_ab [simp]:
  "map item_text [item_a, item_b] = [ascii ''hello'', ascii ''world'']"
  "map item_id [item_a, item_b] = [''a'', ''b'']"
  "item_id ` set [item_a, item_b] = {''a'', ''b''}"
  "dom (store w_ab) = {''a'', ''b''}" "dom (store w_done) = {''a'', ''b''}"
  "calls w_ab = []" "calls w_done = []"
  by (auto simp: item_a_def item_b_def w_ab_def w_done_def w_empty_def)

theorem workers_never_create_records_witness:
  "py_get (elem ''zzz'' ''Z'') ''id'' = Inr (JStr ''zzz'') \<and> ''zzz'' \<notin> dom (store w_ab)
   \<and> store_results (replying unreachable unreachable) [elem ''zzz'' ''Z''] w_ab = (None, w_ab)
   \<and> dom (store (snd (process_batch (replying unreachable unreachable) [item_a, item_b] w_ab)))
       = {''a'', ''b''}
   \<and> llm_reply (replying (Inr resp_dict_id) unreachable) (length (calls w_ab))
        (BatchCall (map item_text [item_a, item_b]) (map item_id [item_a, item_b]))
       = Inr resp_dict_id
   \<and> batch_parsed (replying (Inr resp_dict_id) unreachable) resp_dict_id (length [item_a, item_b])
       = Some ([elem ''a'' ''A''] @ JObj [(''id'', JObj [(''k'', JInt 1)])] # [])
   \<and> id_field_ok (elem ''a'' ''A'')
   \<and> raised_by (JObj [(''id'', JObj [(''k'', JInt 1)])])
       = Some (PyExc ''TypeError'' (''unhashable type: '' @ quoted ''dict''))
   \<and> item_id ` set [item_a, item_b] \<subseteq> dom (store w_ab)
   \<and> (\<exists>rec. store (snd (process_batch (replying (Inr resp_dict_id) unreachable)
                              [item_a, item_b] w_ab)) ''b'' = Some rec
          \<and> status rec = ''error''
          \<and> error rec = Some (''unhashable type: '' @ quoted ''dict''))"
proof -
  let ?env = "replying (Inr resp_dict_id) unreachable"
  let ?batch = "[item_a, item_b]"
  let ?bad = "JObj [(''id'', JObj [(''k'', JInt 1)])]"
  let ?e = "PyExc ''TypeError'' (''unhashable type: '' @ quoted ''dict'')"
  have g: "py_get (elem ''zzz'' ''Z'') ''id'' = Inr (JStr ''zzz'')" by (simp add: elem_def)
  have z: "''zzz'' \<notin> dom (store w_ab)" by simp
  have r: "llm_reply ?env (length (calls w_ab))
             (BatchCall (map item_text ?batch) (map item_id ?batch)) = Inr resp_dict_id"
    by simp
  have p: "batch_parsed ?env resp_dict_id (length ?batch) = Some ([elem ''a'' ''A''] @ ?bad # [])"
    by (simp add: batch_parsed_def extract_loaded example_loads_simps)
  have ok: "id_field_ok (elem ''a'' ''A'')" by (simp add: id_field_ok_def elem_def)
  then have okpre: "\<forall>x\<in>set [elem ''a'' ''A'']. id_field_ok x" by simp
  have rb: "raised_by ?bad = Some ?e" by (simp add: raised_by_examples)
  have sub: "item_id ` set ?batch \<subseteq> dom (store w_ab)"
    by (simp add: item_a_def item_b_def w_ab_def w_empty_def)
  have b: "item_b \<in> set ?batch" by simp
  note thm1 = workers_never_create_records
    [of "replying unreachable unreachable" ?batch w_ab "[]" req_blank "[]" 0
       "elem ''zzz'' ''Z''" "[]"]
  from thm1 g z have k1: "store_results (replying unreachable unreachable) [elem ''zzz'' ''Z''] w_ab
                            = (None, w_ab)"
    by auto
  from thm1 have k2:
    "dom (store (snd (process_batch (replying unreachable unreachable) ?batch w_ab))) = {''a'', ''b''}"
    by simp
  note thm2 = workers_never_create_records
    [of ?env ?batch w_ab "[]" req_blank "[]" 0 "elem ''zzz'' ''Z''" "[]"]
  from thm2 r p okpre rb sub
  have "\<forall>b\<in>set ?batch. \<exists>rec. store (snd (process_batch ?env ?batch w_ab)) (item_id b) = Some rec
                   \<and> status rec = ''error'' \<and> error rec = Some (exc_str ?e)"
    by blast
  with b have k3: "\<exists>rec. store (snd (process_batch ?env ?batch w_ab)) ''b'' = Some rec
          \<and> status rec = ''error'' \<and> error rec = Some (''unhashable type: '' @ quoted ''dict'')"
    by (auto simp: item_b_def)
  from g z k1 k2 r p ok rb sub k3 show ?thesis by blast
qed




end
